theory Spec2Isabelle
  imports Complex_Main "HOL-Library.Char_ord" "HOL-Library.List_Lexorder"
begin

section \<open>Python values used by the bot\<close>

text \<open>
  A Python \<open>str\<close> is modelled as a HOL \<open>string\<close>, read as a sequence of code points
  up to U+00FF. A \<open>dict\<close> is an association list in insertion order with one pair per
  key, since the bot iterates over its dictionaries. Python integers are \<open>int\<close>.
  An exception that leaves a handler is a value of \<open>py_error\<close>.
\<close>

datatype py_error =
    KeyError | ValueError | IndexError | TypeError | AttributeError | RuntimeError | StoreError

type_synonym ('k, 'v) dict = "('k \<times> 'v) list"

definition dict_get :: "('k, 'v) dict \<Rightarrow> 'k \<Rightarrow> 'v option" where
  "dict_get d k = map_of d k"

text \<open>\<open>d[k] = v\<close>: an existing key keeps its place, a new key goes to the end.\<close>

fun dict_set :: "'k \<Rightarrow> 'v \<Rightarrow> ('k, 'v) dict \<Rightarrow> ('k, 'v) dict" where
  "dict_set k v [] = [(k, v)]"
| "dict_set k v (p # ps) = (if fst p = k then (k, v) # ps else p # dict_set k v ps)"

text \<open>\<open>a or b\<close> on values that are \<open>None\<close> or a string: the empty string is falsy.\<close>

definition py_or :: "string option \<Rightarrow> string option \<Rightarrow> string option" where
  "py_or a b = (case a of None \<Rightarrow> b | Some s \<Rightarrow> (if s = [] then b else Some s))"

subsection \<open>String methods\<close>

text \<open>
  \<open>str.isspace\<close>, \<open>str.isdigit\<close> and \<open>str.lower\<close> on the code points up to U+00FF:
  the white space characters are U+0009..U+000D, U+001C..U+0020, U+0085 and U+00A0; the
  digits of \<open>isdigit\<close> are 0..9 and the superscripts U+00B2, U+00B3, U+00B9; the letters
  with a lower-case form are A..Z and U+00C0..U+00DE without U+00D7.
\<close>

definition py_isspace :: "char \<Rightarrow> bool" where
  "py_isspace c = (let n = (of_char c :: nat)
                   in (9 \<le> n \<and> n \<le> 13) \<or> (28 \<le> n \<and> n \<le> 32) \<or> n = 133 \<or> n = 160)"

definition ascii_digit :: "char \<Rightarrow> bool" where
  "ascii_digit c = (let n = (of_char c :: nat) in 48 \<le> n \<and> n \<le> 57)"

definition isdigit_char :: "char \<Rightarrow> bool" where
  "isdigit_char c = (let n = (of_char c :: nat) in ascii_digit c \<or> n = 178 \<or> n = 179 \<or> n = 185)"

definition py_isdigit :: "string \<Rightarrow> bool" where
  "py_isdigit s = (s \<noteq> [] \<and> list_all isdigit_char s)"

definition lower_char :: "char \<Rightarrow> char" where
  "lower_char c = (let n = (of_char c :: nat)
                   in if (65 \<le> n \<and> n \<le> 90) \<or> (192 \<le> n \<and> n \<le> 222 \<and> n \<noteq> 215)
                      then char_of (n + 32) else c)"

definition py_lower :: "string \<Rightarrow> string" where
  "py_lower s = map lower_char s"

definition py_strip :: "string \<Rightarrow> string" where
  "py_strip s = rev (dropWhile py_isspace (rev (dropWhile py_isspace s)))"

definition startswith :: "string \<Rightarrow> string \<Rightarrow> bool" where
  "startswith s p = (take (length p) s = p)"

text \<open>\<open>s.split()\<close>: the maximal runs of characters that are not white space.\<close>

function split_ws :: "string \<Rightarrow> string list" where
  "split_ws [] = []"
| "split_ws (c # cs) =
     (if py_isspace c then split_ws cs
      else (c # takeWhile (\<lambda>x. \<not> py_isspace x) cs)
             # split_ws (dropWhile (\<lambda>x. \<not> py_isspace x) cs))"
  by pat_completeness auto
termination
  by (relation "measure length") (auto simp: less_Suc_eq_le length_dropWhile_le)

text \<open>
  \<open>s.split(maxsplit=1)\<close>: the first word, and the rest from its first character that is
  not white space, trailing white space kept; no second part when nothing is left.
\<close>

definition split_ws1 :: "string \<Rightarrow> string list" where
  "split_ws1 s =
     (let t = dropWhile py_isspace s
      in if t = [] then []
         else let w = takeWhile (\<lambda>x. \<not> py_isspace x) t;
                  r = dropWhile py_isspace (dropWhile (\<lambda>x. \<not> py_isspace x) t)
              in if r = [] then [w] else [w, r])"

text \<open>\<open>s.split(sep)\<close> for a separator of one character.\<close>

fun split_sep :: "char \<Rightarrow> string \<Rightarrow> string list" where
  "split_sep sep [] = [[]]"
| "split_sep sep (c # cs) =
     (if c = sep then [] # split_sep sep cs
      else (case split_sep sep cs of w # ws \<Rightarrow> (c # w) # ws | [] \<Rightarrow> [[c]]))"

subsection \<open>Integers and their decimal text\<close>

definition digit_char :: "nat \<Rightarrow> char" where
  "digit_char d = ''0123456789'' ! d"

definition digit_val :: "char \<Rightarrow> nat" where
  "digit_val c = of_char c - 48"

fun str_nat :: "nat \<Rightarrow> string" where
  "str_nat n = (if n < 10 then [digit_char n]
                else str_nat (n div 10) @ [digit_char (n mod 10)])"

definition str_int :: "int \<Rightarrow> string" where
  "str_int i = (if i < 0 then CHR ''-'' # str_nat (nat (- i)) else str_nat (nat i))"

definition digits_value :: "string \<Rightarrow> nat" where
  "digits_value s = foldl (\<lambda>a c. 10 * a + digit_val c) 0 s"

text \<open>
  \<open>int(s)\<close> in base ten: white space around the literal is dropped, one sign may lead,
  and single underscores may stand between digits, so the text between the underscores
  is a list of non-empty digit groups. Anything else raises \<open>ValueError\<close>. The white
  space of \<open>int\<close> is narrower than that of \<open>str.strip\<close>: the separators U+001C..U+001F
  are not dropped. The interpreter's optional limit on the number of digits is left out.
\<close>

definition int_isspace :: "char \<Rightarrow> bool" where
  "int_isspace c = (let n = (of_char c :: nat)
                    in (9 \<le> n \<and> n \<le> 13) \<or> n = 32 \<or> n = 133 \<or> n = 160)"

definition int_strip :: "string \<Rightarrow> string" where
  "int_strip s = rev (dropWhile int_isspace (rev (dropWhile int_isspace s)))"

definition py_int :: "string \<Rightarrow> py_error + int" where
  "py_int s =
     (let t = int_strip s;
          neg = (t \<noteq> [] \<and> hd t = CHR ''-'');
          body = (if t \<noteq> [] \<and> (hd t = CHR ''-'' \<or> hd t = CHR ''+'') then tl t else t);
          groups = split_sep (CHR ''_'') body
      in if list_all (\<lambda>g. g \<noteq> [] \<and> list_all ascii_digit g) groups
         then Inr ((if neg then - 1 else 1) * int (digits_value (concat groups)))
         else Inl ValueError)"

text \<open>\<open>xs[i]\<close>: a negative index counts from the end, out of range raises.\<close>

definition py_nth :: "'a list \<Rightarrow> int \<Rightarrow> py_error + 'a" where
  "py_nth xs i =
     (if 0 \<le> i \<and> i < int (length xs) then Inr (xs ! nat i)
      else if i < 0 \<and> - int (length xs) \<le> i then Inr (xs ! nat (int (length xs) + i))
      else Inl IndexError)"

text \<open>
  The random source is an argument: \<open>r\<close> is the draw. \<open>random.randint(a, b)\<close> raises on
  an empty range, \<open>random.choice\<close> on an empty sequence.
\<close>

definition randint :: "int \<Rightarrow> int \<Rightarrow> nat \<Rightarrow> py_error + int" where
  "randint a b r = (if b < a then Inl ValueError else Inr (a + int r mod (b - a + 1)))"

definition random_choice :: "'a list \<Rightarrow> nat \<Rightarrow> py_error + 'a" where
  "random_choice xs r = (if xs = [] then Inl IndexError else Inr (xs ! (r mod length xs)))"

section \<open>Data model\<close>

text \<open>
  A question is a JSON object. The fields the handlers read are kept; a key that is absent
  is \<open>None\<close>, a key that is present holds a string. \<open>id\<close> and \<open>options\<close> are read with
  \<open>q["id"]\<close> and \<open>q["options"]\<close> and are taken as present.
\<close>

record question =
  q_id :: string
  q_options :: "(string, string) dict"
  q_answer :: "string option"
  q_correct :: "string option"
  q_explanation_kg :: "string option"
  q_explanation :: "string option"
  q_difficulty :: "string option"
  q_topic :: "string option"

record diff_stats =
  d_total :: int
  d_correct :: int

record user_stats =
  total :: int
  correct :: int
  by_diff :: "(string, diff_stats) dict"
  wrong_qnums :: "string set"

record progress =
  difficulty :: string
  index :: int

record bot_state =
  USER_PROGRESS :: "int \<rightharpoonup> progress"
  USER_STATS :: "int \<rightharpoonup> user_stats"
  SEEN_USERS :: "int set"

definition initial_state :: bot_state where
  "initial_state = \<lparr>USER_PROGRESS = Map.empty, USER_STATS = Map.empty, SEEN_USERS = {}\<rparr>"

section \<open>Statistics helpers\<close>

definition new_user_stats :: user_stats where
  "new_user_stats = \<lparr>total = 0, correct = 0, by_diff = [], wrong_qnums = {}\<rparr>"

text \<open>\<open>get_user_stats\<close> creates the entry when it is missing and returns it.\<close>

definition get_user_stats :: "int \<Rightarrow> bot_state \<Rightarrow> user_stats \<times> bot_state" where
  "get_user_stats user_id s =
     (case USER_STATS s user_id of
        None \<Rightarrow> (new_user_stats, s\<lparr>USER_STATS := (USER_STATS s)(user_id \<mapsto> new_user_stats)\<rparr>)
      | Some stats \<Rightarrow> (stats, s))"

text \<open>
  \<open>update_stats\<close> mutates the entry that \<open>get_user_stats\<close> returned; the model writes the
  updated entry back under the same user. \<open>setdefault\<close> followed by the two increments
  on the sub-dictionary is the read of the old counters and one \<open>dict_set\<close>.
\<close>

definition update_stats :: "int \<Rightarrow> question \<Rightarrow> string \<Rightarrow> bool \<Rightarrow> bot_state \<Rightarrow> bot_state" where
  "update_stats user_id question qnum is_correct s =
     (let (stats, s1) = get_user_stats user_id s;
          stats1 = stats\<lparr>total := total stats + 1\<rparr>;
          stats2 = (if is_correct then stats1\<lparr>correct := correct stats1 + 1\<rparr> else stats1);
          diff = (case q_difficulty question of None \<Rightarrow> ''unknown'' | Some d \<Rightarrow> d);
          entry = (case dict_get (by_diff stats2) diff of
                     None \<Rightarrow> \<lparr>d_total = 0, d_correct = 0\<rparr>
                   | Some e \<Rightarrow> e);
          entry1 = entry\<lparr>d_total := d_total entry + 1\<rparr>;
          entry2 = (if is_correct then entry1\<lparr>d_correct := d_correct entry1 + 1\<rparr> else entry1);
          stats3 = stats2\<lparr>by_diff := dict_set diff entry2 (by_diff stats2)\<rparr>;
          stats4 = (if is_correct
                    then stats3\<lparr>wrong_qnums := wrong_qnums stats3 - {qnum}\<rparr>
                    else stats3\<lparr>wrong_qnums := insert qnum (wrong_qnums stats3)\<rparr>)
      in s1\<lparr>USER_STATS := (USER_STATS s1)(user_id \<mapsto> stats4)\<rparr>)"

text \<open>One call of \<open>update_stats\<close>, and a sequence of calls run in order.\<close>

record stats_call =
  c_user :: int
  c_question :: question
  c_qnum :: string
  c_is_correct :: bool

fun run_updates :: "stats_call list \<Rightarrow> bot_state \<Rightarrow> bot_state" where
  "run_updates [] s = s"
| "run_updates (c # cs) s =
     run_updates cs (update_stats (c_user c) (c_question c) (c_qnum c) (c_is_correct c) s)"

definition sum_total :: "(string, diff_stats) dict \<Rightarrow> int" where
  "sum_total d = sum_list (map (\<lambda>p. d_total (snd p)) d)"

definition sum_correct :: "(string, diff_stats) dict \<Rightarrow> int" where
  "sum_correct d = sum_list (map (\<lambda>p. d_correct (snd p)) d)"

definition stats_consistent :: "user_stats \<Rightarrow> bool" where
  "stats_consistent st \<longleftrightarrow>
     distinct (map fst (by_diff st)) \<and>
     total st = sum_total (by_diff st) \<and> correct st = sum_correct (by_diff st)"

definition wrong_of :: "bot_state \<Rightarrow> int \<Rightarrow> string set" where
  "wrong_of s user_id = (case USER_STATS s user_id of None \<Rightarrow> {} | Some st \<Rightarrow> wrong_qnums st)"

section \<open>Catalog\<close>

text \<open>
  \<open>load_questions\<close> fills the globals from the question file once; the handlers only
  read them. The loaded list \<open>qs\<close> is an argument of everything that reads the catalog,
  and the indices are the functions of \<open>qs\<close> that \<open>load_questions\<close> computes.
\<close>

definition QUESTION_INDEX :: "question list \<Rightarrow> (string, question) dict" where
  "QUESTION_INDEX qs = map (\<lambda>(i, q). (str_int (int i + 1), q)) (enumerate 0 qs)"

text \<open>One round of the loop that builds the topic index: \<open>setdefault(topic, []).append(qnum)\<close>.\<close>

definition topic_index_add :: "(string, string list) dict \<Rightarrow> string \<times> question \<Rightarrow> (string, string list) dict" where
  "topic_index_add idx item =
     (case q_topic (snd item) of
        None \<Rightarrow> idx
      | Some topic \<Rightarrow>
          if topic = [] then idx
          else dict_set topic
                 ((case dict_get idx topic of None \<Rightarrow> [] | Some l \<Rightarrow> l) @ [fst item]) idx)"

definition TOPIC_INDEX :: "question list \<Rightarrow> (string, string list) dict" where
  "TOPIC_INDEX qs = foldl topic_index_add [] (QUESTION_INDEX qs)"

definition TOPIC_NAME_MAP :: "question list \<Rightarrow> (string, string) dict" where
  "TOPIC_NAME_MAP qs =
     foldl (\<lambda>m topic. dict_set (py_lower topic) topic m) [] (map fst (TOPIC_INDEX qs))"

definition get_questions_by_difficulty :: "question list \<Rightarrow> string \<Rightarrow> question list" where
  "get_questions_by_difficulty qs d = filter (\<lambda>q. q_difficulty q = Some d) qs"

section \<open>Handlers\<close>

text \<open>
  What a handler sends is a list of actions. The wording and layout of a message belong
  to the chat transport; a message is recorded as the notice it carries and the values
  put into it. A question goes out with its position and navigation mode, which the
  keyboard encodes in the callback data below.
\<close>

datatype notice =
    Intro
  | Help
  | LevelChosen string
  | NoQuestionsAtLevel
  | LevelFinished
  | GotoFormat
  | NoSuchNumber
  | NoStatsYet
  | StatsReport user_stats
  | NoWrongQuestions
  | NoTopics
  | TopicsList "(string \<times> nat) list"
  | TopicFormat
  | TopicNotFound
  | FirstQuestionNotice
  | LastQuestionNotice
  | AnswerRight string
  | AnswerWrong string string string
  | NotUnderstood

datatype action =
    SendText int notice
  | SendQuestion int question "string option" string
  | CallbackAnswer

text \<open>
  A handler returns the state it leaves, what it has sent, and the exception that ended
  it, if any. State written and messages sent before a raise stay.
\<close>

record outcome =
  state_after :: bot_state
  sent :: "action list"
  raised :: "py_error option"

definition finish :: "bot_state \<Rightarrow> action list \<Rightarrow> outcome" where
  "finish s acts = \<lparr>state_after = s, sent = acts, raised = None\<rparr>"

definition throw :: "bot_state \<Rightarrow> action list \<Rightarrow> py_error \<Rightarrow> outcome" where
  "throw s acts e = \<lparr>state_after = s, sent = acts, raised = Some e\<rparr>"

text \<open>Sending after a call: nothing more is sent once the call has raised.\<close>

definition then_send :: "outcome \<Rightarrow> action list \<Rightarrow> outcome" where
  "then_send r acts = (case raised r of Some e \<Rightarrow> r | None \<Rightarrow> r\<lparr>sent := sent r @ acts\<rparr>)"

definition after_sending :: "action list \<Rightarrow> outcome \<Rightarrow> outcome" where
  "after_sending acts r = r\<lparr>sent := acts @ sent r\<rparr>"

text \<open>The callback data of the buttons under a question.\<close>

definition fmt_opt :: "string option \<Rightarrow> string" where
  "fmt_opt x = (case x of None \<Rightarrow> ''None'' | Some s \<Rightarrow> s)"

definition answer_callback_data :: "question \<Rightarrow> string \<Rightarrow> string \<Rightarrow> string option \<Rightarrow> string" where
  "answer_callback_data q letter nav_mode qnum =
     ''answer|'' @ q_id q @ ''|'' @ letter @ ''|'' @ nav_mode @ ''|'' @ fmt_opt qnum"

definition nav_prev_callback_data :: "string option \<Rightarrow> string" where
  "nav_prev_callback_data qnum = ''nav_prev|'' @ fmt_opt qnum"

definition nav_next_callback_data :: "string option \<Rightarrow> string" where
  "nav_next_callback_data qnum = ''nav_next|'' @ fmt_opt qnum"

definition send_question_universal :: "int \<Rightarrow> question \<Rightarrow> string option \<Rightarrow> string \<Rightarrow> action list" where
  "send_question_universal user_id q qnum nav_mode = [SendQuestion user_id q qnum nav_mode]"

definition send_sequential :: "question list \<Rightarrow> int \<Rightarrow> string \<Rightarrow> bot_state \<Rightarrow> outcome" where
  "send_sequential qs user_id diff s =
     (let questions = get_questions_by_difficulty qs diff
      in if questions = [] then finish s [SendText user_id NoQuestionsAtLevel]
         else
           let fresh = \<lparr>difficulty = diff, index = 0\<rparr>;
               reset = (case USER_PROGRESS s user_id of
                          None \<Rightarrow> True
                        | Some p \<Rightarrow> difficulty p \<noteq> diff);
               prog = (case USER_PROGRESS s user_id of
                          None \<Rightarrow> fresh
                        | Some p \<Rightarrow> if difficulty p \<noteq> diff then fresh else p);
               s1 = (if reset then s\<lparr>USER_PROGRESS := (USER_PROGRESS s)(user_id \<mapsto> fresh)\<rparr> else s);
               idx = index prog
           in if idx \<ge> int (length questions) then finish s1 [SendText user_id LevelFinished]
              else
                (case py_nth questions idx of
                   Inl e \<Rightarrow> throw s1 [] e
                 | Inr q \<Rightarrow>
                     let qnum = map_option fst
                                  (find (\<lambda>item. q_id (snd item) = q_id q) (QUESTION_INDEX qs))
                     in finish s1 (send_question_universal user_id q qnum ''sequential'')))"

definition send_intro :: "int \<Rightarrow> action list" where
  "send_intro user_id = [SendText user_id Intro]"

definition start_handler :: "int \<Rightarrow> bot_state \<Rightarrow> outcome" where
  "start_handler user_id s =
     finish (s\<lparr>SEEN_USERS := insert user_id (SEEN_USERS s)\<rparr>) (send_intro user_id)"

definition level_handler :: "question list \<Rightarrow> int \<Rightarrow> string \<Rightarrow> bot_state \<Rightarrow> outcome" where
  "level_handler qs user_id data s =
     (case split_sep (CHR ''|'') data of
        [_, diff] \<Rightarrow>
          let s1 = s\<lparr>USER_PROGRESS :=
                      (USER_PROGRESS s)(user_id \<mapsto> \<lparr>difficulty = diff, index = 0\<rparr>)\<rparr>
          in then_send
               (after_sending [SendText user_id (LevelChosen diff)]
                  (send_sequential qs user_id diff s1))
               [CallbackAnswer]
      | _ \<Rightarrow> throw s [] ValueError)"

text \<open>\<open>intro_random\<close> and \<open>random_handler\<close>: a random position of the whole catalog.\<close>

definition random_question :: "question list \<Rightarrow> int \<Rightarrow> nat \<Rightarrow> bot_state \<Rightarrow> outcome" where
  "random_question qs user_id r s =
     (case randint 1 (int (length qs)) r of
        Inl e \<Rightarrow> throw s [] e
      | Inr n \<Rightarrow>
          let qnum = str_int n
          in (case dict_get (QUESTION_INDEX qs) qnum of
                None \<Rightarrow> throw s [] KeyError
              | Some q \<Rightarrow> finish s (send_question_universal user_id q (Some qnum) ''manual'')))"

definition intro_random :: "question list \<Rightarrow> int \<Rightarrow> nat \<Rightarrow> bot_state \<Rightarrow> outcome" where
  "intro_random qs user_id r s = then_send (random_question qs user_id r s) [CallbackAnswer]"

definition intro_help :: "int \<Rightarrow> bot_state \<Rightarrow> outcome" where
  "intro_help user_id s = finish s [SendText user_id Help, CallbackAnswer]"

definition goto_handler :: "question list \<Rightarrow> int \<Rightarrow> string \<Rightarrow> bot_state \<Rightarrow> outcome" where
  "goto_handler qs user_id text s =
     (case split_ws text of
        [_, qnum] \<Rightarrow>
          if \<not> py_isdigit qnum then finish s [SendText user_id GotoFormat]
          else (case dict_get (QUESTION_INDEX qs) qnum of
                  None \<Rightarrow> finish s [SendText user_id NoSuchNumber]
                | Some q \<Rightarrow> finish s (send_question_universal user_id q (Some qnum) ''manual''))
      | _ \<Rightarrow> finish s [SendText user_id GotoFormat])"

definition random_handler :: "question list \<Rightarrow> int \<Rightarrow> nat \<Rightarrow> bot_state \<Rightarrow> outcome" where
  "random_handler qs user_id r s = random_question qs user_id r s"

definition stats_handler :: "int \<Rightarrow> bot_state \<Rightarrow> outcome" where
  "stats_handler user_id s =
     (case USER_STATS s user_id of
        None \<Rightarrow> finish s [SendText user_id NoStatsYet]
      | Some stats \<Rightarrow>
          if total stats = 0 then finish s [SendText user_id NoStatsYet]
          else finish s [SendText user_id (StatsReport stats)])"

text \<open>
  \<open>list(stats["wrong_qnums"])\<close> lists the set in an order the interpreter chooses; the
  sorted list stands for it, and the draw \<open>r\<close> reaches every element.
\<close>

definition review_wrong_handler :: "question list \<Rightarrow> int \<Rightarrow> nat \<Rightarrow> bot_state \<Rightarrow> outcome" where
  "review_wrong_handler qs user_id r s =
     (case USER_STATS s user_id of
        None \<Rightarrow> finish s [SendText user_id NoWrongQuestions]
      | Some stats \<Rightarrow>
          if wrong_qnums stats = {} then finish s [SendText user_id NoWrongQuestions]
          else (case random_choice (sorted_list_of_set (wrong_qnums stats)) r of
                  Inl e \<Rightarrow> throw s [] e
                | Inr qnum \<Rightarrow>
                    (case dict_get (QUESTION_INDEX qs) qnum of
                       None \<Rightarrow> throw s [] KeyError
                     | Some q \<Rightarrow>
                         finish s (send_question_universal user_id q (Some qnum) ''review''))))"

text \<open>The topics are listed in the order of \<open>sorted(TOPIC_INDEX.items())\<close>, each with its count.\<close>

definition topics_handler :: "question list \<Rightarrow> int \<Rightarrow> bot_state \<Rightarrow> outcome" where
  "topics_handler qs user_id s =
     (if TOPIC_INDEX qs = [] then finish s [SendText user_id NoTopics]
      else finish s
             [SendText user_id
                (TopicsList (map (\<lambda>(t, l). (t, length l)) (sort_key fst (TOPIC_INDEX qs))))])"

text \<open>
  The topic of a query, as \<open>topic_handler\<close> finds it: the entry of the lower-cased name
  map under the query if there is one, else the first entry whose key starts with the
  query. The empty string would count as not found.
\<close>

definition resolve_topic :: "question list \<Rightarrow> string \<Rightarrow> string option" where
  "resolve_topic qs query =
     (let topic_canonical =
            (case dict_get (TOPIC_NAME_MAP qs) query of
               Some canon \<Rightarrow> Some canon
             | None \<Rightarrow> map_option snd
                         (find (\<lambda>item. startswith (fst item) query) (TOPIC_NAME_MAP qs)))
      in (case topic_canonical of
            None \<Rightarrow> None
          | Some canon \<Rightarrow> if canon = [] then None else Some canon))"

definition topic_handler :: "question list \<Rightarrow> int \<Rightarrow> string \<Rightarrow> nat \<Rightarrow> bot_state \<Rightarrow> outcome" where
  "topic_handler qs user_id text r s =
     (case split_ws1 text of
        [_, arg] \<Rightarrow>
          (case resolve_topic qs (py_lower (py_strip arg)) of
             None \<Rightarrow> finish s [SendText user_id TopicNotFound]
           | Some topic_canonical \<Rightarrow>
               (case dict_get (TOPIC_INDEX qs) topic_canonical of
                  None \<Rightarrow> throw s [] KeyError
                | Some qnums \<Rightarrow>
                    (case random_choice qnums r of
                       Inl e \<Rightarrow> throw s [] e
                     | Inr qnum \<Rightarrow>
                         (case dict_get (QUESTION_INDEX qs) qnum of
                            None \<Rightarrow> throw s [] KeyError
                          | Some q \<Rightarrow>
                              finish s
                                (send_question_universal user_id q (Some qnum) ''manual'')))))
      | _ \<Rightarrow> finish s [SendText user_id TopicFormat])"

definition nav_prev :: "question list \<Rightarrow> int \<Rightarrow> string \<Rightarrow> bot_state \<Rightarrow> outcome" where
  "nav_prev qs user_id data s =
     (case split_sep (CHR ''|'') data of
        [_, qnum] \<Rightarrow>
          (case py_int qnum of
             Inl e \<Rightarrow> throw s [] e
           | Inr cur \<Rightarrow>
               let prev_num = str_int (cur - 1)
               in (case dict_get (QUESTION_INDEX qs) prev_num of
                     None \<Rightarrow> finish s [SendText user_id FirstQuestionNotice, CallbackAnswer]
                   | Some q \<Rightarrow>
                       finish s (send_question_universal user_id q (Some prev_num) ''manual''
                                   @ [CallbackAnswer])))
      | _ \<Rightarrow> throw s [] ValueError)"

definition nav_next :: "question list \<Rightarrow> int \<Rightarrow> string \<Rightarrow> bot_state \<Rightarrow> outcome" where
  "nav_next qs user_id data s =
     (case split_sep (CHR ''|'') data of
        [_, qnum] \<Rightarrow>
          (case py_int qnum of
             Inl e \<Rightarrow> throw s [] e
           | Inr cur \<Rightarrow>
               let next_num = str_int (cur + 1)
               in (case dict_get (QUESTION_INDEX qs) next_num of
                     None \<Rightarrow> finish s [SendText user_id LastQuestionNotice, CallbackAnswer]
                   | Some q \<Rightarrow>
                       finish s (send_question_universal user_id q (Some next_num) ''manual''
                                   @ [CallbackAnswer])))
      | _ \<Rightarrow> throw s [] ValueError)"

text \<open>
  The feedback of \<open>answer_handler\<close>. On a wrong answer the text names the right option,
  \<open>q['options'][correct]\<close>, which raises when \<open>correct\<close> is no key of the options.
\<close>

definition feedback :: "question \<Rightarrow> string option \<Rightarrow> string \<Rightarrow> bool \<Rightarrow> py_error + notice" where
  "feedback q corr explanation is_correct =
     (if is_correct then Inr (AnswerRight explanation)
      else (case corr of
              None \<Rightarrow> Inl KeyError
            | Some c \<Rightarrow>
                (case dict_get (q_options q) c of
                   None \<Rightarrow> Inl KeyError
                 | Some txt \<Rightarrow> Inr (AnswerWrong c txt explanation))))"

definition answer_handler :: "question list \<Rightarrow> int \<Rightarrow> string \<Rightarrow> bot_state \<Rightarrow> outcome" where
  "answer_handler qs user_id data s =
     (case split_sep (CHR ''|'') data of
        [_, qid, choice, nav_mode, qnum] \<Rightarrow>
          (case dict_get (QUESTION_INDEX qs) qnum of
             None \<Rightarrow> throw s [] KeyError
           | Some q \<Rightarrow>
               let corr = py_or (q_answer q) (q_correct q);
                   explanation =
                     (case py_or (py_or (q_explanation_kg q) (q_explanation q)) (Some [])
                      of None \<Rightarrow> [] | Some e \<Rightarrow> e);
                   is_correct = (Some choice = corr);
                   s1 = update_stats user_id q qnum is_correct s
               in (case feedback q corr explanation is_correct of
                     Inl e \<Rightarrow> throw s1 [] e
                   | Inr msg \<Rightarrow>
                       if nav_mode = ''sequential'' then
                         (case USER_PROGRESS s1 user_id of
                            None \<Rightarrow> finish s1 [SendText user_id msg, CallbackAnswer]
                          | Some p \<Rightarrow>
                              let p1 = p\<lparr>index := index p + 1\<rparr>;
                                  s2 = s1\<lparr>USER_PROGRESS := (USER_PROGRESS s1)(user_id \<mapsto> p1)\<rparr>
                              in then_send
                                   (after_sending [SendText user_id msg]
                                      (send_sequential qs user_id (difficulty p1) s2))
                                   [CallbackAnswer])
                       else finish s1 [SendText user_id msg, CallbackAnswer]))
      | _ \<Rightarrow> throw s [] ValueError)"

text \<open>\<open>message.text\<close> is \<open>None\<close> for a message without text.\<close>

definition fallback_handler :: "int \<Rightarrow> string option \<Rightarrow> bot_state \<Rightarrow> outcome" where
  "fallback_handler user_id text s =
     (let txt = (case text of None \<Rightarrow> [] | Some t \<Rightarrow> t)
      in if startswith txt ''/'' then finish s []
         else if user_id \<notin> SEEN_USERS s
              then finish (s\<lparr>SEEN_USERS := insert user_id (SEEN_USERS s)\<rparr>) (send_intro user_id)
              else finish s [SendText user_id NotUnderstood])"

text \<open>
  One update of the chat is one call of one handler, with the user it comes from and the
  text or callback data it carries.
\<close>

datatype update =
    Start int
  | Level int string
  | IntroRandom int nat
  | IntroHelp int
  | Goto int string
  | Random int nat
  | Stats int
  | ReviewWrong int nat
  | Topics int
  | Topic int string nat
  | NavPrev int string
  | NavNext int string
  | Answer int string
  | Fallback int "string option"

fun handle :: "question list \<Rightarrow> update \<Rightarrow> bot_state \<Rightarrow> outcome" where
  "handle qs (Start u) s = start_handler u s"
| "handle qs (Level u data) s = level_handler qs u data s"
| "handle qs (IntroRandom u r) s = intro_random qs u r s"
| "handle qs (IntroHelp u) s = intro_help u s"
| "handle qs (Goto u txt) s = goto_handler qs u txt s"
| "handle qs (Random u r) s = random_handler qs u r s"
| "handle qs (Stats u) s = stats_handler u s"
| "handle qs (ReviewWrong u r) s = review_wrong_handler qs u r s"
| "handle qs (Topics u) s = topics_handler qs u s"
| "handle qs (Topic u txt r) s = topic_handler qs u txt r s"
| "handle qs (NavPrev u data) s = nav_prev qs u data s"
| "handle qs (NavNext u data) s = nav_next qs u data s"
| "handle qs (Answer u data) s = answer_handler qs u data s"
| "handle qs (Fallback u txt) s = fallback_handler u txt s"

section \<open>Analytics store\<close>

text \<open>
  The module \<open>db\<close> reads a PostgreSQL store through a connection pool. The store is an
  argument of the model: the pool is absent, or acquiring a connection raises, or it
  gives a connection; a connection answers each query with rows or with an exception;
  and giving the connection back returns or raises. Time is an integer count of
  microseconds, \<open>now\<close> standing for \<open>datetime.utcnow()\<close>; a float is a real number.
\<close>

datatype db_value = DbInt int | DbNull | DbDate string

type_synonym db_row = "(string, db_value) dict"

datatype sql =
    CountEventUsersSince
  | CountAttemptsSince
  | CountAttempts
  | AccuracyTotals
  | AttemptsPerDaySince
  | TopUsersSince
  | RetentionTotals

record connection =
  fetchval :: "sql \<Rightarrow> int list \<Rightarrow> py_error + int option"
  fetchrow :: "sql \<Rightarrow> int list \<Rightarrow> py_error + db_row option"
  fetch :: "sql \<Rightarrow> int list \<Rightarrow> py_error + db_row list"

text \<open>
  A pool, when there is one, is what \<open>acquire\<close> does on entry (raise, or give a
  connection) and what the release does on exit (\<open>None\<close>: it returns).
\<close>

datatype pool = NoPool | Pool "py_error + connection" "py_error option"

text \<open>
  \<open>get_conn\<close> is a generator used as a context manager; \<open>body\<close> is the block under
  \<open>async with get_conn() as conn\<close>. Without a pool, and when \<open>acquire\<close> raises, the block
  runs with \<open>None\<close> and the generator ends after it. With a connection the block runs
  inside \<open>try: async with _pool.acquire() as conn: yield conn\<close>. An exception of the
  release on the way out, or one that the block lets through, is caught by the
  \<open>except Exception\<close> of \<open>get_conn\<close>, which logs it and runs \<open>yield None\<close>: the generator
  yields a second time, and the context manager raises \<open>RuntimeError\<close> in place of
  whatever the block had returned.
\<close>

definition get_conn :: "pool \<Rightarrow> (connection option \<Rightarrow> py_error + 'a) \<Rightarrow> py_error + 'a" where
  "get_conn p body =
     (case p of
        NoPool \<Rightarrow> body None
      | Pool acquired released \<Rightarrow>
          (case acquired of
             Inl e \<Rightarrow> body None
           | Inr conn \<Rightarrow>
               (case body (Some conn) of
                  Inl e \<Rightarrow> Inl RuntimeError
                | Inr v \<Rightarrow> (case released of None \<Rightarrow> Inr v | Some e \<Rightarrow> Inl RuntimeError))))"

text \<open>\<open>try: body / except Exception: return dflt\<close>.\<close>

definition try_except :: "py_error + 'a \<Rightarrow> 'a \<Rightarrow> py_error + 'a" where
  "try_except body dflt = (case body of Inl e \<Rightarrow> Inr dflt | Inr v \<Rightarrow> Inr v)"

definition row_get :: "db_row \<Rightarrow> string \<Rightarrow> py_error + db_value" where
  "row_get row col = (case dict_get row col of None \<Rightarrow> Inl KeyError | Some v \<Rightarrow> Inr v)"

text \<open>A column used as a number, and a column whose \<open>strftime\<close> is called.\<close>

definition row_int :: "db_row \<Rightarrow> string \<Rightarrow> py_error + int" where
  "row_int row col =
     (case row_get row col of
        Inl e \<Rightarrow> Inl e
      | Inr v \<Rightarrow> (case v of DbInt n \<Rightarrow> Inr n | DbNull \<Rightarrow> Inl TypeError | DbDate d \<Rightarrow> Inl TypeError))"

definition row_date_text :: "db_row \<Rightarrow> string \<Rightarrow> py_error + string" where
  "row_date_text row col =
     (case row_get row col of
        Inl e \<Rightarrow> Inl e
      | Inr v \<Rightarrow> (case v of DbDate d \<Rightarrow> Inr d | DbNull \<Rightarrow> Inl AttributeError
                   | DbInt n \<Rightarrow> Inl AttributeError))"

definition hour_us :: int where "hour_us = 3600000000"

definition day_us :: int where "day_us = 24 * hour_us"

definition start_of_day_utc :: "int \<Rightarrow> int \<Rightarrow> int" where
  "start_of_day_utc now timezone_offset =
     (let tz_offset = timezone_offset * hour_us;
          local_now = now + tz_offset;
          start_of_day = local_now - local_now mod day_us
      in start_of_day - tz_offset)"

definition start_date_utc :: "int \<Rightarrow> int \<Rightarrow> int \<Rightarrow> int" where
  "start_date_utc now days timezone_offset =
     (let tz_offset = timezone_offset * hour_us;
          local_now = now + tz_offset;
          start_date = local_now - days * day_us
      in start_date - tz_offset)"

text \<open>\<open>count or 0\<close> on the value of \<open>fetchval\<close>.\<close>

definition count_or_0 :: "int option \<Rightarrow> int" where
  "count_or_0 count = (case count of None \<Rightarrow> 0 | Some n \<Rightarrow> if n = 0 then 0 else n)"

definition get_dau_today :: "pool \<Rightarrow> int \<Rightarrow> int \<Rightarrow> py_error + int" where
  "get_dau_today p now timezone_offset =
     get_conn p
       (\<lambda>c. case c of
          None \<Rightarrow> Inr 0
        | Some conn \<Rightarrow>
            try_except
              (case fetchval conn CountEventUsersSince [start_of_day_utc now timezone_offset] of
                 Inl e \<Rightarrow> Inl e
               | Inr count \<Rightarrow> Inr (count_or_0 count))
              0)"

definition get_attempts_today :: "pool \<Rightarrow> int \<Rightarrow> int \<Rightarrow> py_error + int" where
  "get_attempts_today p now timezone_offset =
     get_conn p
       (\<lambda>c. case c of
          None \<Rightarrow> Inr 0
        | Some conn \<Rightarrow>
            try_except
              (case fetchval conn CountAttemptsSince [start_of_day_utc now timezone_offset] of
                 Inl e \<Rightarrow> Inl e
               | Inr count \<Rightarrow> Inr (count_or_0 count))
              0)"

definition get_attempts_total :: "pool \<Rightarrow> py_error + int" where
  "get_attempts_total p =
     get_conn p
       (\<lambda>c. case c of
          None \<Rightarrow> Inr 0
        | Some conn \<Rightarrow>
            try_except
              (case fetchval conn CountAttempts [] of
                 Inl e \<Rightarrow> Inl e
               | Inr count \<Rightarrow> Inr (count_or_0 count))
              0)"

text \<open>
  The percentage of two columns of the one row of a query: \<open>0.0\<close> without a row or when
  the whole is not positive.
\<close>

definition percentage :: "db_row option \<Rightarrow> string \<Rightarrow> string \<Rightarrow> py_error + real" where
  "percentage result part whole =
     (case result of
        None \<Rightarrow> Inr 0
      | Some row \<Rightarrow>
          if row = [] then Inr 0
          else (case row_int row whole of
                  Inl e \<Rightarrow> Inl e
                | Inr w \<Rightarrow>
                    if w > 0 then
                      (case row_int row part of
                         Inl e \<Rightarrow> Inl e
                       | Inr c \<Rightarrow> Inr (real_of_int c / real_of_int w * 100))
                    else Inr 0))"

definition get_accuracy :: "pool \<Rightarrow> py_error + real" where
  "get_accuracy p =
     get_conn p
       (\<lambda>c. case c of
          None \<Rightarrow> Inr 0
        | Some conn \<Rightarrow>
            try_except
              (case fetchrow conn AccuracyTotals [] of
                 Inl e \<Rightarrow> Inl e
               | Inr result \<Rightarrow> percentage result ''correct'' ''total'')
              0)"

text \<open>A list comprehension over rows: the first row that raises ends it.\<close>

fun each_row :: "(db_row \<Rightarrow> py_error + 'a) \<Rightarrow> db_row list \<Rightarrow> py_error + 'a list" where
  "each_row f [] = Inr []"
| "each_row f (row # rows) =
     (case f row of
        Inl e \<Rightarrow> Inl e
      | Inr v \<Rightarrow> (case each_row f rows of Inl e \<Rightarrow> Inl e | Inr vs \<Rightarrow> Inr (v # vs)))"

definition day_count :: "db_row \<Rightarrow> py_error + string \<times> db_value" where
  "day_count row =
     (case row_date_text row ''date'' of
        Inl e \<Rightarrow> Inl e
      | Inr d \<Rightarrow> (case row_get row ''count'' of Inl e \<Rightarrow> Inl e | Inr c \<Rightarrow> Inr (d, c)))"

definition user_count :: "db_row \<Rightarrow> py_error + db_value \<times> db_value" where
  "user_count row =
     (case row_get row ''user_id'' of
        Inl e \<Rightarrow> Inl e
      | Inr u \<Rightarrow> (case row_get row ''count'' of Inl e \<Rightarrow> Inl e | Inr c \<Rightarrow> Inr (u, c)))"

definition get_attempts_per_day ::
    "pool \<Rightarrow> int \<Rightarrow> int \<Rightarrow> int \<Rightarrow> py_error + (string \<times> db_value) list" where
  "get_attempts_per_day p now days timezone_offset =
     get_conn p
       (\<lambda>c. case c of
          None \<Rightarrow> Inr []
        | Some conn \<Rightarrow>
            try_except
              (case fetch conn AttemptsPerDaySince [start_date_utc now days timezone_offset] of
                 Inl e \<Rightarrow> Inl e
               | Inr rows \<Rightarrow> each_row day_count rows)
              [])"

definition get_top_users_last_7_days ::
    "pool \<Rightarrow> int \<Rightarrow> int \<Rightarrow> int \<Rightarrow> py_error + (db_value \<times> db_value) list" where
  "get_top_users_last_7_days p now limit timezone_offset =
     get_conn p
       (\<lambda>c. case c of
          None \<Rightarrow> Inr []
        | Some conn \<Rightarrow>
            try_except
              (case fetch conn TopUsersSince [start_date_utc now 7 timezone_offset, limit] of
                 Inl e \<Rightarrow> Inl e
               | Inr rows \<Rightarrow> each_row user_count rows)
              [])"

definition get_retention_d1 :: "pool \<Rightarrow> py_error + real" where
  "get_retention_d1 p =
     get_conn p
       (\<lambda>c. case c of
          None \<Rightarrow> Inr 0
        | Some conn \<Rightarrow>
            try_except
              (case fetchrow conn RetentionTotals [] of
                 Inl e \<Rightarrow> Inl e
               | Inr result \<Rightarrow> percentage result ''returned_users'' ''total_users'')
              0)"

section \<open>Properties stated over the model\<close>

subsection \<open>The ledger\<close>

text \<open>Every statistics entry of the ledger agrees with its per-difficulty counters.\<close>

definition ledger_consistent :: "bot_state \<Rightarrow> bool" where
  "ledger_consistent s \<longleftrightarrow> (\<forall>u st. USER_STATS s u = Some st \<longrightarrow> stats_consistent st)"

text \<open>
  The effect of one \<open>update_stats\<close> call in closed form: the entry the call starts from
  (the stored one, or a fresh one), and the entry it leaves.
\<close>

definition diff_key :: "question \<Rightarrow> string" where
  "diff_key q = (case q_difficulty q of None \<Rightarrow> ''unknown'' | Some d \<Rightarrow> d)"

definition old_counts :: "user_stats \<Rightarrow> string \<Rightarrow> diff_stats" where
  "old_counts st k =
     (case dict_get (by_diff st) k of None \<Rightarrow> \<lparr>d_total = 0, d_correct = 0\<rparr> | Some e \<Rightarrow> e)"

definition entry_after :: "question \<Rightarrow> string \<Rightarrow> bool \<Rightarrow> user_stats \<Rightarrow> user_stats" where
  "entry_after q n c st =
     \<lparr>total = total st + 1,
      correct = correct st + (if c then 1 else 0),
      by_diff = dict_set (diff_key q)
                  \<lparr>d_total = d_total (old_counts st (diff_key q)) + 1,
                   d_correct = d_correct (old_counts st (diff_key q)) + (if c then 1 else 0)\<rparr>
                  (by_diff st),
      wrong_qnums = (if c then wrong_qnums st - {n} else insert n (wrong_qnums st))\<rparr>"

definition entry_before :: "bot_state \<Rightarrow> int \<Rightarrow> user_stats" where
  "entry_before s u = (case USER_STATS s u of None \<Rightarrow> new_user_stats | Some st \<Rightarrow> st)"

subsection \<open>Positions and tokens\<close>

text \<open>The question of 1-based rank \<open>p\<close> in the catalog, if there is one.\<close>

definition position :: "question list \<Rightarrow> int \<Rightarrow> question option" where
  "position qs p = (if 1 \<le> p \<and> p \<le> int (length qs) then Some (qs ! nat (p - 1)) else None)"

text \<open>A non-negative integer literal: one or more of the digits 0 to 9.\<close>

definition int_literal :: "string \<Rightarrow> bool" where
  "int_literal tok = (tok \<noteq> [] \<and> list_all ascii_digit tok)"

subsection \<open>Answers\<close>

text \<open>The verdict and the explanation of the first feedback message among what was sent.\<close>

fun feedback_of :: "action list \<Rightarrow> (bool \<times> string) option" where
  "feedback_of [] = None"
| "feedback_of (SendText u (AnswerRight e) # acts) = Some (True, e)"
| "feedback_of (SendText u (AnswerWrong c t e) # acts) = Some (False, e)"
| "feedback_of (a # acts) = feedback_of acts"

fun is_question :: "action \<Rightarrow> bool" where
  "is_question (SendQuestion u q n m) = True"
| "is_question a = False"

text \<open>
  The correct letter of a question, in the words of the data model: the \<open>answer\<close> field
  when it holds a non-empty string, else the \<open>correct\<close> field.
\<close>

definition correct_letter :: "question \<Rightarrow> string option" where
  "correct_letter q =
     (case q_answer q of
        None \<Rightarrow> q_correct q
      | Some a \<Rightarrow> if a = [] then q_correct q else Some a)"

text \<open>
  The explanation shown with the feedback: the \<open>explanation_kg\<close> field when it holds a
  non-empty string, else the \<open>explanation\<close> field, else the empty string.
\<close>

definition shown_explanation :: "question \<Rightarrow> string" where
  "shown_explanation q =
     (let second = (case q_explanation q of None \<Rightarrow> [] | Some e \<Rightarrow> e)
      in case q_explanation_kg q of
           None \<Rightarrow> second
         | Some e \<Rightarrow> if e = [] then second else e)"

text \<open>The data-model invariant of a question: its correct letter is one of its options.\<close>

definition letter_in_options :: "question \<Rightarrow> bool" where
  "letter_in_options q =
     (case correct_letter q of
        None \<Rightarrow> False
      | Some c \<Rightarrow> dict_get (q_options q) c \<noteq> None)"

text \<open>The explanation and the verdict as \<open>answer_handler\<close> computes them.\<close>

definition explanation_of :: "question \<Rightarrow> string" where
  "explanation_of q =
     (case py_or (py_or (q_explanation_kg q) (q_explanation q)) (Some []) of
        None \<Rightarrow> [] | Some e \<Rightarrow> e)"

definition verdict :: "question \<Rightarrow> string \<Rightarrow> bool" where
  "verdict q choice = (Some choice = py_or (q_answer q) (q_correct q))"


subsection \<open>Topics\<close>

definition known_topics :: "question list \<Rightarrow> string list" where
  "known_topics qs = map fst (TOPIC_INDEX qs)"

text \<open>What holds of every entry of the topic index while it is built from the items \<open>S\<close>.\<close>

definition topic_entries_ok :: "(string \<times> question) set \<Rightarrow> (string, string list) dict \<Rightarrow> bool" where
  "topic_entries_ok S idx \<longleftrightarrow>
     (\<forall>(t, l) \<in> set idx. t \<noteq> [] \<and> l \<noteq> [] \<and>
        (\<forall>n \<in> set l. \<exists>q. (n, q) \<in> S \<and> q_topic q = Some t))"

subsection \<open>The store\<close>

text \<open>The store is unavailable: there is no pool, or no connection can be acquired.\<close>

definition store_unavailable :: "pool \<Rightarrow> bool" where
  "store_unavailable p =
     (case p of
        NoPool \<Rightarrow> True
      | Pool acquired released \<Rightarrow> (case acquired of Inl e \<Rightarrow> True | Inr conn \<Rightarrow> False))"

subsection \<open>Example data\<close>

text \<open>
  Three questions: the first with an \<open>answer\<close> field and no explanation, the second with
  only a \<open>correct\<close> field and no difficulty, the third with a correct letter that is none
  of its options.
\<close>

definition example_q1 :: question where
  "example_q1 = \<lparr>q_id = ''q1'', q_options = [(''A'', ''4''), (''B'', ''5'')],
     q_answer = Some ''A'', q_correct = None, q_explanation_kg = None, q_explanation = None,
     q_difficulty = Some ''easy'', q_topic = Some ''Algebra''\<rparr>"

definition example_q2 :: question where
  "example_q2 = \<lparr>q_id = ''q2'', q_options = [(''A'', ''x''), (''B'', ''y'')],
     q_answer = None, q_correct = Some ''B'', q_explanation_kg = Some ''because'', q_explanation = None,
     q_difficulty = None, q_topic = Some ''algebra 2''\<rparr>"

definition example_q3 :: question where
  "example_q3 = \<lparr>q_id = ''q3'', q_options = [(''A'', ''0''), (''B'', ''1'')],
     q_answer = Some ''E'', q_correct = None, q_explanation_kg = None,
     q_explanation = Some ''see the graph'',
     q_difficulty = Some ''easy'', q_topic = Some ''Geometry''\<rparr>"

definition example_catalog :: "question list" where
  "example_catalog = [example_q1, example_q2, example_q3]"

definition topics_catalog :: "question list" where
  "topics_catalog = [example_q2, example_q1]"

definition example_calls :: "stats_call list" where
  "example_calls =
     [\<lparr>c_user = 7, c_question = example_q1, c_qnum = ''1'', c_is_correct = True\<rparr>,
      \<lparr>c_user = 7, c_question = example_q2, c_qnum = ''2'', c_is_correct = False\<rparr>,
      \<lparr>c_user = 8, c_question = example_q1, c_qnum = ''1'', c_is_correct = False\<rparr>,
      \<lparr>c_user = 7, c_question = example_q1, c_qnum = ''1'', c_is_correct = False\<rparr>]"

definition example_entry :: user_stats where
  "example_entry =
     \<lparr>total = 3, correct = 1,
      by_diff = [(''easy'', \<lparr>d_total = 2, d_correct = 1\<rparr>),
                 (''unknown'', \<lparr>d_total = 1, d_correct = 0\<rparr>)],
      wrong_qnums = {''1'', ''2''}\<rparr>"


text \<open>A connection whose every query raises, and one that answers.\<close>

definition failing_connection :: connection where
  "failing_connection =
     \<lparr>fetchval = (\<lambda>q args. Inl StoreError),
      fetchrow = (\<lambda>q args. Inl StoreError),
      fetch = (\<lambda>q args. Inl StoreError)\<rparr>"

definition counting_connection :: connection where
  "counting_connection =
     \<lparr>fetchval = (\<lambda>q args. Inr (Some 5)),
      fetchrow = (\<lambda>q args. Inr (Some [(''total'', DbInt 4), (''correct'', DbInt 3)])),
      fetch = (\<lambda>q args. Inr [])\<rparr>"

text \<open>A sequence of updates, handled one after the other; what was sent is collected.\<close>

fun replay :: "question list \<Rightarrow> update list \<Rightarrow> bot_state \<Rightarrow> bot_state \<times> action list" where
  "replay qs [] s = (s, [])"
| "replay qs (ev # evs) s =
     (let r = handle qs ev s; (s', acts) = replay qs evs (state_after r)
      in (s', sent r @ acts))"

definition easy_q :: "string \<Rightarrow> question" where
  "easy_q name = \<lparr>q_id = name, q_options = [(''A'', ''yes''), (''B'', ''no'')],
     q_answer = Some ''A'', q_correct = None, q_explanation_kg = None, q_explanation = None,
     q_difficulty = Some ''easy'', q_topic = None\<rparr>"

definition easy_catalog :: "question list" where
  "easy_catalog = [easy_q ''e1'', easy_q ''e2'', easy_q ''e3'']"

definition easy_session :: "update list" where
  "easy_session =
     [Level 7 ''level|easy'',
      Answer 7 (answer_callback_data (easy_q ''e1'') ''A'' ''sequential'' (Some ''1'')),
      Answer 7 (answer_callback_data (easy_q ''e2'') ''B'' ''sequential'' (Some ''2''))]"

text \<open>
  A store that goes away while a query runs: the connection was acquired, every query on
  it raises, and so does giving it back.
\<close>

definition lost_store :: pool where
  "lost_store = Pool (Inr failing_connection) (Some StoreError)"

text \<open>
  A question whose \<open>answer\<close> and \<open>explanation_kg\<close> fields hold the empty string, so that
  the \<open>correct\<close> and \<open>explanation\<close> fields are read.
\<close>

definition example_q4 :: question where
  "example_q4 = \<lparr>q_id = ''q4'', q_options = [(''A'', ''1''), (''B'', ''2'')],
     q_answer = Some [], q_correct = Some ''B'', q_explanation_kg = Some [],
     q_explanation = Some ''why'',
     q_difficulty = Some ''hard'', q_topic = None\<rparr>"

definition fallback_catalog :: "question list" where
  "fallback_catalog = [example_q1, example_q2, example_q4]"


section \<open>Decimal text and \<open>int\<close>\<close>

lemma digit_char_cases:
  assumes "d < 10"
  shows "d = 0 \<or> d = 1 \<or> d = 2 \<or> d = 3 \<or> d = 4 \<or> d = 5 \<or> d = 6 \<or> d = 7 \<or> d = 8 \<or> d = (9::nat)"
  using assms by arith

lemma digit_char_props:
  assumes "d < 10"
  shows "ascii_digit (digit_char d)" and "digit_val (digit_char d) = d"
    and "\<not> py_isspace (digit_char d)" and "digit_char d \<noteq> CHR ''|''"
    and "digit_char d \<noteq> CHR ''_''" and "digit_char d \<noteq> CHR ''-''" and "digit_char d \<noteq> CHR ''+''"
  using digit_char_cases [OF assms]
  by (auto simp: digit_char_def ascii_digit_def digit_val_def py_isspace_def)

lemma str_nat_unfold:
  "str_nat n = (if n < 10 then [digit_char n] else str_nat (n div 10) @ [digit_char (n mod 10)])"
  by (rule str_nat.simps)

declare str_nat.simps [simp del]

lemma str_nat_digits: "list_all ascii_digit (str_nat n)"
proof (induction n rule: str_nat.induct)
  case (1 n)
  show ?case
  proof (cases "n < 10")
    case True
    then show ?thesis by (subst str_nat_unfold) (simp add: digit_char_props)
  next
    case False
    then have "list_all ascii_digit (str_nat (n div 10))" by (rule "1.IH")
    with False show ?thesis by (subst str_nat_unfold) (simp add: digit_char_props)
  qed
qed

lemma str_nat_nonempty: "str_nat n \<noteq> []"
  by (subst str_nat_unfold) simp

lemma digits_value_snoc: "digits_value (s @ [c]) = 10 * digits_value s + digit_val c"
  by (simp add: digits_value_def)

lemma digits_value_str_nat: "digits_value (str_nat n) = n"
proof (induction n rule: str_nat.induct)
  case (1 n)
  show ?case
  proof (cases "n < 10")
    case True
    then show ?thesis
      by (subst str_nat_unfold) (simp add: digits_value_def digit_char_props)
  next
    case False
    then have "digits_value (str_nat (n div 10)) = n div 10" by (rule "1.IH")
    with False show ?thesis
      by (subst str_nat_unfold) (simp add: digits_value_snoc digit_char_props)
  qed
qed

lemma ascii_digit_plain:
  assumes "ascii_digit c"
  shows "\<not> py_isspace c" and "c \<noteq> CHR ''|''" and "c \<noteq> CHR ''_''" and "c \<noteq> CHR ''-''" and "c \<noteq> CHR ''+''"
    and "\<not> int_isspace c"
  using assms by (auto simp: ascii_digit_def py_isspace_def int_isspace_def Let_def)

lemma split_sep_absent: "sep \<notin> set s \<Longrightarrow> split_sep sep s = [s]"
  by (induction s) auto

lemma split_sep_prefix:
  "sep \<notin> set a \<Longrightarrow> split_sep sep (a @ sep # b) = a # split_sep sep b"
  by (induction a) auto

lemma digits_no_char:
  assumes "list_all ascii_digit s" and "\<not> ascii_digit c"
  shows "c \<notin> set s"
  using assms by (auto simp: list_all_iff)

lemma int_strip_id:
  assumes "s \<noteq> []" and "\<not> int_isspace (hd s)" and "\<not> int_isspace (last s)"
  shows "int_strip s = s"
proof -
  from assms have a: "dropWhile int_isspace s = s" by (cases s) auto
  from assms have "rev s \<noteq> []" "\<not> int_isspace (hd (rev s))" by (simp_all add: hd_rev)
  then have b: "dropWhile int_isspace (rev s) = rev s" by (cases "rev s") auto
  show ?thesis by (simp add: int_strip_def a b)
qed

lemma digits_strip:
  assumes "list_all ascii_digit s" and "s \<noteq> []"
  shows "int_strip s = s"
proof -
  have "hd s \<in> set s" "last s \<in> set s" using assms by simp_all
  with assms have "ascii_digit (hd s)" "ascii_digit (last s)" by (auto simp: list_all_iff)
  then show ?thesis using assms by (intro int_strip_id) (simp_all add: ascii_digit_plain)
qed

lemma py_int_digits:
  assumes "list_all ascii_digit s" and "s \<noteq> []"
  shows "py_int s = Inr (int (digits_value s))"
proof -
  have h: "ascii_digit (hd s)" using assms by (cases s) auto
  have u: "CHR ''_'' \<notin> set s"
    using assms(1) by (rule digits_no_char) (simp add: ascii_digit_def)
  show ?thesis
    using assms h ascii_digit_plain [OF h]
    by (simp add: py_int_def digits_strip split_sep_absent [OF u] Let_def)
qed

lemma py_int_minus_digits:
  assumes "list_all ascii_digit s" and "s \<noteq> []"
  shows "py_int (CHR ''-'' # s) = Inr (- int (digits_value s))"
proof -
  have l: "ascii_digit (last s)" using assms by (auto simp: list_all_iff)
  have u: "CHR ''_'' \<notin> set s"
    using assms(1) by (rule digits_no_char) (simp add: ascii_digit_def)
  have "int_strip (CHR ''-'' # s) = CHR ''-'' # s"
    using assms ascii_digit_plain [OF l] by (intro int_strip_id) (simp_all add: int_isspace_def)
  then show ?thesis
    using assms by (simp add: py_int_def split_sep_absent [OF u] Let_def)
qed

lemma py_int_str_int: "py_int (str_int i) = Inr i"
  by (simp add: str_int_def py_int_digits py_int_minus_digits str_nat_digits
        str_nat_nonempty digits_value_str_nat)

lemma str_int_inject: "str_int i = str_int j \<longleftrightarrow> i = j"
proof
  assume "str_int i = str_int j"
  then have "py_int (str_int i) = py_int (str_int j)" by simp
  then show "i = j" by (simp add: py_int_str_int)
qed simp

lemma str_int_no_bar: "CHR ''|'' \<notin> set (str_int i)"
proof -
  have "CHR ''|'' \<notin> set (str_nat n)" for n
    using str_nat_digits [of n] by (rule digits_no_char) (simp add: ascii_digit_def)
  then show ?thesis by (simp add: str_int_def)
qed

text \<open>\<open>int\<close> on a few texts: blanks, a sign, an underscore, and a separator it refuses.\<close>

lemma py_int_examples:
  "py_int '' 12 '' = Inr 12" "py_int ''-7'' = Inr (- 7)" "py_int ''1_0'' = Inr 10"
  "py_int ''1__0'' = Inl ValueError" "py_int ''x1'' = Inl ValueError"
  "py_int [CHR ''3'', CHR 0x1F] = Inl ValueError" "py_strip [CHR ''3'', CHR 0x1F] = ''3''"
  by code_simp+

section \<open>The ledger\<close>

lemma sum_total_dict_set:
  "sum_total (dict_set k v d) =
     sum_total d - (case dict_get d k of None \<Rightarrow> 0 | Some e \<Rightarrow> d_total e) + d_total v"
  by (induction d) (auto simp: sum_total_def dict_get_def)

lemma sum_correct_dict_set:
  "sum_correct (dict_set k v d) =
     sum_correct d - (case dict_get d k of None \<Rightarrow> 0 | Some e \<Rightarrow> d_correct e) + d_correct v"
  by (induction d) (auto simp: sum_correct_def dict_get_def)

lemma keys_dict_set: "set (map fst (dict_set k v d)) = insert k (set (map fst d))"
  by (induction d) auto

lemma distinct_keys_dict_set:
  "distinct (map fst d) \<Longrightarrow> distinct (map fst (dict_set k v d))"
proof (induction d)
  case Nil
  then show ?case by simp
next
  case (Cons p ps)
  show ?case
  proof (cases "fst p = k")
    case True
    with Cons.prems show ?thesis by simp
  next
    case False
    have "fst p \<notin> set (map fst (dict_set k v ps))"
      using Cons.prems False by (simp add: keys_dict_set del: set_map)
    with Cons False show ?thesis by simp
  qed
qed

lemma stats_consistent_new: "stats_consistent new_user_stats"
  by (simp add: stats_consistent_def new_user_stats_def sum_total_def sum_correct_def)

lemma diff_stats_literal:
  "(e::diff_stats)\<lparr>d_total := a\<rparr> = \<lparr>d_total = a, d_correct = d_correct e\<rparr>"
  "(e::diff_stats)\<lparr>d_correct := b\<rparr> = \<lparr>d_total = d_total e, d_correct = b\<rparr>"
  by (cases e, simp)+

lemma user_stats_literal:
  "(st::user_stats)\<lparr>total := a\<rparr> =
     \<lparr>total = a, correct = correct st, by_diff = by_diff st, wrong_qnums = wrong_qnums st\<rparr>"
  "(st::user_stats)\<lparr>correct := b\<rparr> =
     \<lparr>total = total st, correct = b, by_diff = by_diff st, wrong_qnums = wrong_qnums st\<rparr>"
  "(st::user_stats)\<lparr>by_diff := d\<rparr> =
     \<lparr>total = total st, correct = correct st, by_diff = d, wrong_qnums = wrong_qnums st\<rparr>"
  "(st::user_stats)\<lparr>wrong_qnums := w\<rparr> =
     \<lparr>total = total st, correct = correct st, by_diff = by_diff st, wrong_qnums = w\<rparr>"
  by (cases st, simp)+

lemma update_stats_entry:
  "update_stats u q n c s =
     s\<lparr>USER_STATS := (USER_STATS s)(u \<mapsto> entry_after q n c (entry_before s u))\<rparr>"
  by (cases c)
     (simp_all add: update_stats_def get_user_stats_def entry_after_def entry_before_def
        diff_key_def old_counts_def Let_def diff_stats_literal user_stats_literal
        split: option.splits)

lemma entry_after_consistent:
  assumes "stats_consistent st"
  shows "stats_consistent (entry_after q n c st)"
proof -
  have d: "distinct (map fst (by_diff (entry_after q n c st)))"
    using assms by (simp add: entry_after_def stats_consistent_def distinct_keys_dict_set)
  have t: "total (entry_after q n c st) = sum_total (by_diff (entry_after q n c st))"
    using assms
    by (simp add: entry_after_def stats_consistent_def sum_total_dict_set old_counts_def
          split: option.splits)
  have k: "correct (entry_after q n c st) = sum_correct (by_diff (entry_after q n c st))"
    using assms
    by (simp add: entry_after_def stats_consistent_def sum_correct_dict_set old_counts_def
          split: option.splits)
  from d t k show ?thesis by (simp add: stats_consistent_def)
qed

lemma update_stats_consistent:
  assumes "ledger_consistent s"
  shows "ledger_consistent (update_stats u q n c s)"
proof -
  have "stats_consistent (entry_before s u)"
    using assms stats_consistent_new
    by (auto simp: entry_before_def ledger_consistent_def split: option.splits)
  then have "stats_consistent (entry_after q n c (entry_before s u))"
    by (rule entry_after_consistent)
  with assms show ?thesis
    by (simp add: update_stats_entry ledger_consistent_def)
qed

lemma run_updates_consistent:
  "ledger_consistent s \<Longrightarrow> ledger_consistent (run_updates cs s)"
  by (induction cs arbitrary: s) (simp_all add: update_stats_consistent)

lemma ledger_consistent_initial: "ledger_consistent initial_state"
  by (simp add: ledger_consistent_def initial_state_def)

text \<open>
  C1. Start from the empty ledger and run any sequence of \<open>update_stats\<close> calls, for any
  users, questions, positions and outcomes. Every statistics entry that then exists has
  one sub-counter pair per difficulty tag, its \<open>total\<close> is the sum of the per-difficulty
  totals and its \<open>correct\<close> is the sum of the per-difficulty correct counts. The
  sequence is arbitrary, so this holds after each call of a longer sequence.
\<close>

theorem update_stats_totals_agree:
  "USER_STATS (run_updates calls initial_state) u = Some st \<Longrightarrow>
     distinct (map fst (by_diff st)) \<and>
     total st = sum_total (by_diff st) \<and>
     correct st = sum_correct (by_diff st)"
  using run_updates_consistent [OF ledger_consistent_initial, of calls]
  by (simp add: ledger_consistent_def stats_consistent_def)

text \<open>The invariant at work on four recorded answers of two users.\<close>

lemma example_entry_reached:
  "USER_STATS (run_updates example_calls initial_state) 7 = Some example_entry"
  by (simp add: example_calls_def example_entry_def example_q1_def example_q2_def
        initial_state_def update_stats_entry entry_after_def entry_before_def
        new_user_stats_def diff_key_def old_counts_def dict_get_def insert_commute)

theorem update_stats_totals_agree_witness:
  "USER_STATS (run_updates example_calls initial_state) 7 = Some example_entry \<and>
   distinct (map fst (by_diff example_entry)) \<and>
   total example_entry = 3 \<and> sum_total (by_diff example_entry) = 3 \<and>
   correct example_entry = 1 \<and> sum_correct (by_diff example_entry) = 1"
  using update_stats_totals_agree [OF example_entry_reached] example_entry_reached
  by (simp add: example_entry_def sum_total_def sum_correct_def)

lemma wrong_after_incorrect: "p \<in> wrong_of (update_stats u q p False s) u"
  by (simp add: wrong_of_def update_stats_entry entry_after_def)

lemma not_wrong_after_correct: "p \<notin> wrong_of (update_stats u q p True s) u"
  by (simp add: wrong_of_def update_stats_entry entry_after_def)

text \<open>
  C3. Right after an incorrect answer of user \<open>u\<close> at position \<open>p\<close>, \<open>p\<close> is in the
  user's \<open>wrong_qnums\<close>. Whatever is recorded next (the calls \<open>cs\<close>), right after a later
  correct answer at \<open>p\<close> it is out of the set; and whatever follows (\<open>cs'\<close>), right after
  a further incorrect answer at \<open>p\<close> it is in the set again.
\<close>

theorem wrong_qnums_follows_last_answer:
  "p \<in> wrong_of (update_stats u q p False s) u \<and>
   p \<notin> wrong_of
         (update_stats u q p True (run_updates cs (update_stats u q p False s))) u \<and>
   p \<in> wrong_of
         (update_stats u q p False
            (run_updates cs'
               (update_stats u q p True (run_updates cs (update_stats u q p False s))))) u"
  by (simp add: wrong_after_incorrect not_wrong_after_correct)

section \<open>Positions of the catalog\<close>

lemma numbered_lookup:
  "map_of (map (\<lambda>(i, q). (str_int (int i + 1), q)) (enumerate n qs)) (str_int p) =
     (if int n + 1 \<le> p \<and> p \<le> int n + int (length qs)
      then Some (qs ! nat (p - 1 - int n)) else None)"
proof (induction qs arbitrary: n)
  case Nil
  then show ?case by simp
next
  case (Cons x xs)
  show ?case
  proof (cases "p = int n + 1")
    case True
    then show ?thesis by simp
  next
    case False
    then have ne: "str_int (int n + 1) \<noteq> str_int p"
      by (simp add: str_int_inject)
    have idx: "(x # xs) ! nat (p - 1 - int n) = xs ! nat (p - 1 - int (Suc n))"
      if "int n + 1 < p"
    proof -
      from that have "nat (p - 1 - int n) = Suc (nat (p - 1 - int (Suc n)))" by simp
      then show ?thesis by simp
    qed
    from False ne idx show ?thesis
      using Cons.IH [of "Suc n"] by (auto simp: )
  qed
qed

lemma numbered_keys:
  "map_of (map (\<lambda>(i, q). (str_int (int i + 1), q)) (enumerate n qs)) k = Some q
     \<Longrightarrow> \<exists>p. k = str_int p \<and> int n + 1 \<le> p"
proof (induction qs arbitrary: n)
  case Nil
  then show ?case by simp
next
  case (Cons x xs)
  show ?case
  proof (cases "k = str_int (int n + 1)")
    case True
    then show ?thesis by auto
  next
    case False
    with Cons.prems
    have "map_of (map (\<lambda>(i, q). (str_int (int i + 1), q)) (enumerate (Suc n) xs)) k = Some q"
      by simp
    from Cons.IH [OF this] obtain p where "k = str_int p" "int (Suc n) + 1 \<le> p" by blast
    then show ?thesis by (intro exI [of _ p]) simp
  qed
qed

lemma QUESTION_INDEX_position:
  "dict_get (QUESTION_INDEX qs) (str_int p) = position qs p"
  using numbered_lookup [of 0 qs p]
  by (simp add: dict_get_def QUESTION_INDEX_def position_def)

lemma QUESTION_INDEX_key:
  assumes "dict_get (QUESTION_INDEX qs) k = Some q"
  shows "\<exists>p. k = str_int p \<and> 1 \<le> p \<and> p \<le> int (length qs) \<and> q = qs ! nat (p - 1)"
proof -
  from assms obtain p where k: "k = str_int p"
    using numbered_keys [of 0 qs k q] by (auto simp: dict_get_def QUESTION_INDEX_def)
  with assms have "position qs p = Some q" by (simp add: QUESTION_INDEX_position)
  with k show ?thesis by (auto simp: position_def split: if_splits)
qed

lemma QUESTION_INDEX_key_literal:
  assumes "dict_get (QUESTION_INDEX qs) k = Some q"
  shows "int_literal k"
proof -
  from QUESTION_INDEX_key [OF assms] obtain p where "k = str_int p" "1 \<le> p" by blast
  then show ?thesis
    by (simp add: int_literal_def str_int_def str_nat_digits str_nat_nonempty)
qed

lemma nav_prev_data_split:
  "split_sep (CHR ''|'') (nav_prev_callback_data (Some (str_int p))) = [''nav_prev'', str_int p]"
  by (simp add: nav_prev_callback_data_def fmt_opt_def split_sep_absent str_int_no_bar)

lemma nav_next_data_split:
  "split_sep (CHR ''|'') (nav_next_callback_data (Some (str_int p))) = [''nav_next'', str_int p]"
  by (simp add: nav_next_callback_data_def fmt_opt_def split_sep_absent str_int_no_bar)

lemma nav_prev_at:
  "nav_prev qs u (nav_prev_callback_data (Some (str_int p))) s =
     (case position qs (p - 1) of
        None \<Rightarrow> finish s [SendText u FirstQuestionNotice, CallbackAnswer]
      | Some q \<Rightarrow> finish s [SendQuestion u q (Some (str_int (p - 1))) ''manual'', CallbackAnswer])"
  by (simp add: nav_prev_def nav_prev_data_split py_int_str_int QUESTION_INDEX_position
        send_question_universal_def split: option.splits)

lemma nav_next_at:
  "nav_next qs u (nav_next_callback_data (Some (str_int p))) s =
     (case position qs (p + 1) of
        None \<Rightarrow> finish s [SendText u LastQuestionNotice, CallbackAnswer]
      | Some q \<Rightarrow> finish s [SendQuestion u q (Some (str_int (p + 1))) ''manual'', CallbackAnswer])"
  by (simp add: nav_next_def nav_next_data_split py_int_str_int QUESTION_INDEX_position
        send_question_universal_def split: option.splits)

text \<open>
  C6. Let \<open>p\<close> be a position of the catalog and take the callback data that the Previous
  and Next buttons under the question shown at \<open>p\<close> carry. \<open>nav_prev\<close> sends the question of
  rank \<open>p - 1\<close> of the whole catalog, in manual mode, when \<open>p\<close> is not the first position, and
  the first-question notice when it is. \<open>nav_next\<close> sends the question of rank \<open>p + 1\<close>
  when \<open>p\<close> is not the last position, and the last-question notice when it is. No
  difficulty filter is read, and in every case the handler leaves the state as it was
  (\<open>finish s\<close>) and raises nothing.
\<close>

theorem nav_prev_next_adjacent:
  assumes "1 \<le> p" and "p \<le> int (length qs)"
  shows "(2 \<le> p \<longrightarrow>
            nav_prev qs u (nav_prev_callback_data (Some (str_int p))) s =
              finish s [SendQuestion u (qs ! nat (p - 2)) (Some (str_int (p - 1))) ''manual'',
                        CallbackAnswer]) \<and>
         (p = 1 \<longrightarrow>
            nav_prev qs u (nav_prev_callback_data (Some (str_int p))) s =
              finish s [SendText u FirstQuestionNotice, CallbackAnswer]) \<and>
         (p < int (length qs) \<longrightarrow>
            nav_next qs u (nav_next_callback_data (Some (str_int p))) s =
              finish s [SendQuestion u (qs ! nat p) (Some (str_int (p + 1))) ''manual'',
                        CallbackAnswer]) \<and>
         (p = int (length qs) \<longrightarrow>
            nav_next qs u (nav_next_callback_data (Some (str_int p))) s =
              finish s [SendText u LastQuestionNotice, CallbackAnswer])"
proof -
  have a: "nat (p - 1 - 1) = nat (p - 2)" by simp
  have b: "nat (p + 1 - 1) = nat p" by simp
  from assms show ?thesis
    by (auto simp: nav_prev_at nav_next_at position_def a b)
qed

lemma str_int_small: "str_int 1 = ''1''" "str_int 2 = ''2''" "str_int 3 = ''3''" "str_int 4 = ''4''"
  "str_int 0 = ''0''"
  by (simp_all add: str_int_def str_nat_unfold digit_char_def)

theorem nav_prev_next_adjacent_witness:
  "nav_prev example_catalog 7 ''nav_prev|3'' initial_state =
     finish initial_state [SendQuestion 7 example_q2 (Some ''2'') ''manual'', CallbackAnswer] \<and>
   nav_next example_catalog 7 ''nav_next|3'' initial_state =
     finish initial_state [SendText 7 LastQuestionNotice, CallbackAnswer] \<and>
   nav_prev example_catalog 7 ''nav_prev|1'' initial_state =
     finish initial_state [SendText 7 FirstQuestionNotice, CallbackAnswer] \<and>
   nav_next example_catalog 7 ''nav_next|1'' initial_state =
     finish initial_state [SendQuestion 7 example_q2 (Some ''2'') ''manual'', CallbackAnswer]"
  using nav_prev_next_adjacent [of 3 example_catalog 7 initial_state]
        nav_prev_next_adjacent [of 1 example_catalog 7 initial_state]
  by (simp add: example_catalog_def str_int_small nav_prev_callback_data_def
        nav_next_callback_data_def fmt_opt_def)

lemma not_literal_not_key:
  "\<not> int_literal tok \<Longrightarrow> dict_get (QUESTION_INDEX qs) tok = None"
  using QUESTION_INDEX_key_literal [of qs tok] by (cases "dict_get (QUESTION_INDEX qs) tok") auto

lemma goto_handler_state: "state_after (goto_handler qs u txt s) = s"
  by (simp add: goto_handler_def finish_def split: list.splits option.splits)

text \<open>
  C5. Take a \<open>/goto\<close> message whose token, when the message has exactly one, is not a
  non-negative integer literal or is no key of the position index. The handler answers
  with the format notice or the no-such-number notice and nothing else, raises nothing,
  and leaves every progress entry and every statistics entry as it was.
\<close>

theorem goto_rejects_bad_token:
  assumes "\<forall>cmd tok. split_ws txt = [cmd, tok] \<longrightarrow>
             \<not> int_literal tok \<or> dict_get (QUESTION_INDEX qs) tok = None"
  shows "(sent (goto_handler qs u txt s) = [SendText u GotoFormat] \<or>
          sent (goto_handler qs u txt s) = [SendText u NoSuchNumber]) \<and>
         raised (goto_handler qs u txt s) = None \<and>
         USER_PROGRESS (state_after (goto_handler qs u txt s)) = USER_PROGRESS s \<and>
         USER_STATS (state_after (goto_handler qs u txt s)) = USER_STATS s"
proof -
  have "dict_get (QUESTION_INDEX qs) tok = None" if "split_ws txt = [cmd, tok]" for cmd tok
    using assms that not_literal_not_key by blast
  then show ?thesis
    by (auto simp: goto_handler_def finish_def split: list.splits option.splits)
qed

lemma example_index:
  "QUESTION_INDEX example_catalog =
     [(''1'', example_q1), (''2'', example_q2), (''3'', example_q3)]"
  by (simp add: QUESTION_INDEX_def example_catalog_def enumerate_eq_zip str_int_small upt_rec)

theorem goto_rejects_bad_token_witness:
  "sent (goto_handler example_catalog 7 ''/goto 99'' initial_state) = [SendText 7 NoSuchNumber] \<and>
   sent (goto_handler example_catalog 7 ''/goto x1'' initial_state) = [SendText 7 GotoFormat] \<and>
   state_after (goto_handler example_catalog 7 ''/goto 99'' initial_state) = initial_state"
proof -
  have n: "dict_get (QUESTION_INDEX example_catalog) ''99'' = None"
    by (simp add: example_index dict_get_def)
  have a: "\<forall>cmd tok. split_ws ''/goto 99'' = [cmd, tok] \<longrightarrow>
             \<not> int_literal tok \<or> dict_get (QUESTION_INDEX example_catalog) tok = None"
    using n by (simp add: py_isspace_def)
  have b: "\<forall>cmd tok. split_ws ''/goto x1'' = [cmd, tok] \<longrightarrow>
             \<not> int_literal tok \<or> dict_get (QUESTION_INDEX example_catalog) tok = None"
    by (simp add: py_isspace_def int_literal_def ascii_digit_def)
  have c: "py_isdigit ''99''" "\<not> py_isdigit ''x1''"
    by (simp_all add: py_isdigit_def isdigit_char_def ascii_digit_def)
  from goto_rejects_bad_token [OF a, of 7 initial_state]
       goto_rejects_bad_token [OF b, of 7 initial_state] c n
  show ?thesis
    by (simp add: goto_handler_def py_isspace_def finish_def)
qed

section \<open>Answers\<close>

lemma state_after_then_send [simp]: "state_after (then_send r acts) = state_after r"
  by (simp add: then_send_def split: option.splits)

lemma state_after_after_sending [simp]: "state_after (after_sending acts r) = state_after r"
  by (simp add: after_sending_def)

lemma state_after_finish [simp]: "state_after (finish s acts) = s"
  by (simp add: finish_def)

lemma state_after_throw [simp]: "state_after (throw s acts e) = s"
  by (simp add: throw_def)

lemma update_stats_progress [simp]: "USER_PROGRESS (update_stats u q n c s) = USER_PROGRESS s"
  by (simp add: update_stats_entry)

lemma send_sequential_stats [simp]:
  "USER_STATS (state_after (send_sequential qs u d s)) = USER_STATS s"
  by (simp add: send_sequential_def Let_def split: sum.splits)


text \<open>The \<open>or\<close> chains of \<open>answer_handler\<close> compute the letter and the explanation above.\<close>

lemma correct_letter_or: "py_or (q_answer q) (q_correct q) = correct_letter q"
  by (simp add: py_or_def correct_letter_def split: option.splits)

lemma shown_explanation_or:
  "(case py_or (py_or (q_explanation_kg q) (q_explanation q)) (Some []) of
      None \<Rightarrow> [] | Some e \<Rightarrow> e) = shown_explanation q"
  by (simp add: py_or_def shown_explanation_def split: option.splits)

lemma feedback_ok:
  assumes "c \<or> letter_in_options q"
  shows "\<exists>msg. feedback q (py_or (q_answer q) (q_correct q)) e c = Inr msg \<and>
           feedback_of [SendText u msg] = Some (c, e)"
  using assms
  by (auto simp: feedback_def letter_in_options_def correct_letter_or split: option.splits)

lemma answer_handler_found:
  assumes "split_sep (CHR ''|'') data = [tag, qid, choice, nav_mode, qnum]"
    and "dict_get (QUESTION_INDEX qs) qnum = Some q"
  shows "answer_handler qs u data s =
     (case feedback q (py_or (q_answer q) (q_correct q)) (explanation_of q) (verdict q choice) of
        Inl e \<Rightarrow> throw (update_stats u q qnum (verdict q choice) s) [] e
      | Inr msg \<Rightarrow>
          if nav_mode = ''sequential'' then
            (case USER_PROGRESS s u of
               None \<Rightarrow> finish (update_stats u q qnum (verdict q choice) s)
                         [SendText u msg, CallbackAnswer]
             | Some p \<Rightarrow>
                 then_send
                   (after_sending [SendText u msg]
                      (send_sequential qs u (difficulty p)
                         ((update_stats u q qnum (verdict q choice) s)
                            \<lparr>USER_PROGRESS := (USER_PROGRESS s)(u \<mapsto> p\<lparr>index := index p + 1\<rparr>)\<rparr>)))
                   [CallbackAnswer])
          else finish (update_stats u q qnum (verdict q choice) s)
                 [SendText u msg, CallbackAnswer])"
  using assms
  by (simp add: answer_handler_def Let_def explanation_of_def verdict_def
        split: sum.splits option.splits)

lemma answer_handler_stats:
  assumes "split_sep (CHR ''|'') data = [tag, qid, choice, nav_mode, qnum]"
    and "dict_get (QUESTION_INDEX qs) qnum = Some q"
  shows "USER_STATS (state_after (answer_handler qs u data s)) =
           USER_STATS (update_stats u q qnum (verdict q choice) s)"
  by (simp add: answer_handler_found [OF assms] split: sum.splits option.splits)

lemma sent_then_send:
  "sent (then_send r acts) = (if raised r = None then sent r @ acts else sent r)"
  by (simp add: then_send_def split: option.splits)

lemma sent_after_sending [simp]: "sent (after_sending acts r) = acts @ sent r"
  by (simp add: after_sending_def)

lemma raised_after_sending [simp]: "raised (after_sending acts r) = raised r"
  by (simp add: after_sending_def)

lemma feedback_of_first:
  "feedback_of [SendText u msg] = Some v \<Longrightarrow> feedback_of (SendText u msg # acts) = Some v"
  by (cases msg) simp_all

lemma answer_handler_feedback:
  assumes "split_sep (CHR ''|'') data = [tag, qid, choice, nav_mode, qnum]"
    and "dict_get (QUESTION_INDEX qs) qnum = Some q"
    and "verdict q choice \<or> letter_in_options q"
  shows "feedback_of (sent (answer_handler qs u data s)) =
           Some (verdict q choice, explanation_of q)"
proof -
  from feedback_ok [OF assms(3), of "explanation_of q" u] obtain msg where
    m: "feedback q (py_or (q_answer q) (q_correct q)) (explanation_of q) (verdict q choice) = Inr msg"
    and f: "feedback_of [SendText u msg] = Some (verdict q choice, explanation_of q)"
    by blast
  show ?thesis
    using feedback_of_first [OF f]
    by (simp add: answer_handler_found [OF assms(1,2)] m finish_def sent_then_send
          split: option.splits)
qed

lemma answer_handler_raises:
  assumes "split_sep (CHR ''|'') data = [tag, qid, choice, nav_mode, qnum]"
    and "dict_get (QUESTION_INDEX qs) qnum = Some q"
    and "\<not> verdict q choice" and "\<not> letter_in_options q"
  shows "answer_handler qs u data s = throw (update_stats u q qnum False s) [] KeyError"
  using assms(3,4)
  by (auto simp: answer_handler_found [OF assms(1,2)] feedback_def letter_in_options_def
        correct_letter_or
        split: option.splits)

lemma explanation_of_absent:
  "q_explanation_kg q = None \<Longrightarrow> q_explanation q = None \<Longrightarrow> explanation_of q = []"
  by (simp add: explanation_of_def py_or_def)





text \<open>
  C10. Take an answer in sequential mode, with its five fields and a position of the
  catalog, by a user who has no progress entry. The handler leaves exactly the state
  that \<open>update_stats\<close> produces: the user's statistics entry is the old one (or a fresh
  one) with the answer recorded in total, per-difficulty counters and wrong set; the
  progress entries are as before, so no cursor exists or moves; and no question is among
  what is sent.
\<close>

theorem sequential_answer_without_session:
  assumes "split_sep (CHR ''|'') data = [tag, qid, choice, ''sequential'', qnum]"
    and "dict_get (QUESTION_INDEX qs) qnum = Some q"
    and "USER_PROGRESS s u = None"
  shows "state_after (answer_handler qs u data s) =
           update_stats u q qnum (Some choice = py_or (q_answer q) (q_correct q)) s \<and>
         USER_STATS (state_after (answer_handler qs u data s)) u =
           Some (entry_after q qnum (Some choice = py_or (q_answer q) (q_correct q))
                   (entry_before s u)) \<and>
         USER_PROGRESS (state_after (answer_handler qs u data s)) = USER_PROGRESS s \<and>
         list_all (\<lambda>a. \<not> is_question a) (sent (answer_handler qs u data s))"
  using assms(3)
  by (simp add: answer_handler_found [OF assms(1,2)] verdict_def update_stats_entry
        finish_def throw_def split: sum.splits)

theorem sequential_answer_without_session_witness:
  "USER_STATS (state_after
     (answer_handler example_catalog 7 ''answer|q1|B|sequential|1'' initial_state)) 7 =
     Some \<lparr>total = 1, correct = 0, by_diff = [(''easy'', \<lparr>d_total = 1, d_correct = 0\<rparr>)],
           wrong_qnums = {''1''}\<rparr> \<and>
   USER_PROGRESS (state_after
     (answer_handler example_catalog 7 ''answer|q1|B|sequential|1'' initial_state)) 7 = None \<and>
   list_all (\<lambda>a. \<not> is_question a)
     (sent (answer_handler example_catalog 7 ''answer|q1|B|sequential|1'' initial_state))"
proof -
  have a: "split_sep (CHR ''|'') ''answer|q1|B|sequential|1'' =
             [''answer'', ''q1'', ''B'', ''sequential'', ''1'']"
    by simp
  have b: "dict_get (QUESTION_INDEX example_catalog) ''1'' = Some example_q1"
    by (simp add: example_index dict_get_def)
  have c: "USER_PROGRESS initial_state 7 = None"
    by (simp add: initial_state_def)
  note t = sequential_answer_without_session [OF a b c, THEN conjunct2]
  have v: "entry_after example_q1 ''1''
             (Some ''B'' = py_or (q_answer example_q1) (q_correct example_q1))
             (entry_before initial_state 7) =
           \<lparr>total = 1, correct = 0, by_diff = [(''easy'', \<lparr>d_total = 1, d_correct = 0\<rparr>)],
            wrong_qnums = {''1''}\<rparr>"
    by (simp add: entry_after_def entry_before_def initial_state_def new_user_stats_def
          example_q1_def py_or_def diff_key_def old_counts_def dict_get_def)
  from t v c show ?thesis by simp
qed

text \<open>Any answer with five fields and a position outside the catalog ends in \<open>KeyError\<close>.\<close>

lemma answer_handler_unknown_position:
  assumes "split_sep (CHR ''|'') data = [tag, qid, choice, nav_mode, qnum]"
    and "dict_get (QUESTION_INDEX qs) qnum = None"
  shows "answer_handler qs u data s = throw s [] KeyError"
  using assms by (simp add: answer_handler_def)

text \<open>
  C4. The handler at work on callback data whose position, 99, is not in a catalog of
  three questions: \<open>QUESTION_INDEX[qnum]\<close> raises \<open>KeyError\<close>, which leaves the handler;
  nothing has been sent and the state is as before.
\<close>

theorem answer_unknown_position_raises:
  "answer_handler example_catalog 7 ''answer|q1|A|manual|99'' initial_state =
     \<lparr>state_after = initial_state, sent = [], raised = Some KeyError\<rparr>"
  by (simp add: answer_handler_def example_index dict_get_def throw_def)







text \<open>The letter and the explanation of the example questions.\<close>

lemma example_letters:
  "correct_letter example_q1 = Some ''A''" "shown_explanation example_q1 = []"
  "correct_letter example_q2 = Some ''B''" "shown_explanation example_q2 = ''because''"
  "correct_letter example_q4 = Some ''B''" "shown_explanation example_q4 = ''why''"
  by (simp_all add: correct_letter_def shown_explanation_def example_q1_def example_q2_def
        example_q4_def)

lemma answer_handler_feedback_letter:
  assumes "split_sep (CHR ''|'') data = [tag, qid, choice, nav_mode, qnum]"
    and "dict_get (QUESTION_INDEX qs) qnum = Some q"
    and "correct_letter q = Some choice \<or> letter_in_options q"
  shows "feedback_of (sent (answer_handler qs u data s)) =
           Some (correct_letter q = Some choice, shown_explanation q)"
proof -
  have v: "verdict q choice = (correct_letter q = Some choice)"
    by (auto simp: verdict_def correct_letter_or)
  have e: "explanation_of q = shown_explanation q"
    by (simp add: explanation_of_def shown_explanation_or)
  from assms(3) v have "verdict q choice \<or> letter_in_options q" by simp
  from answer_handler_feedback [OF assms(1,2) this, of u s] v e show ?thesis by simp
qed

lemma shown_explanation_absent:
  "q_explanation_kg q = None \<Longrightarrow> q_explanation q = None \<Longrightarrow> shown_explanation q = []"
  by (simp add: shown_explanation_def)

text \<open>
  C9. Take an answer whose callback data has its five fields and whose position is in the
  catalog, with question \<open>q\<close>. The correct letter of \<open>q\<close> is its \<open>answer\<close> field when that
  holds a non-empty string, else its \<open>correct\<close> field; the choice is judged right
  exactly when it is that letter, as equal strings, so in the same case. (1) The
  statistics entry of the user is the previous one with the answer recorded under that
  verdict. (2) Whenever feedback is sent (the choice is right, or the correct letter is
  one of the options), it carries that verdict and the explanation of the question:
  the \<open>explanation_kg\<close> field when non-empty, else the \<open>explanation\<close> field, else the empty
  string. (3) In particular the explanation sent is the empty string when the question
  has neither explanation field.
\<close>

theorem answer_judged_by_exact_letter:
  assumes "split_sep (CHR ''|'') data = [tag, qid, choice, nav_mode, qnum]"
    and "dict_get (QUESTION_INDEX qs) qnum = Some q"
  shows "USER_STATS (state_after (answer_handler qs u data s)) u =
           Some (entry_after q qnum (correct_letter q = Some choice) (entry_before s u)) \<and>
         (correct_letter q = Some choice \<or> letter_in_options q \<longrightarrow>
            feedback_of (sent (answer_handler qs u data s)) =
              Some (correct_letter q = Some choice, shown_explanation q)) \<and>
         ((correct_letter q = Some choice \<or> letter_in_options q) \<and>
          q_explanation_kg q = None \<and> q_explanation q = None \<longrightarrow>
            feedback_of (sent (answer_handler qs u data s)) =
              Some (correct_letter q = Some choice, []))"
proof -
  have v: "verdict q choice = (correct_letter q = Some choice)"
    by (auto simp: verdict_def correct_letter_or)
  have st: "USER_STATS (state_after (answer_handler qs u data s)) u =
           Some (entry_after q qnum (correct_letter q = Some choice) (entry_before s u))"
    using answer_handler_stats [OF assms, of u s] by (simp add: v update_stats_entry)
  from st answer_handler_feedback_letter [OF assms, of u s] show ?thesis
    by (auto simp: shown_explanation_absent)
qed

lemma fallback_catalog_index:
  "QUESTION_INDEX fallback_catalog =
     [(''1'', example_q1), (''2'', example_q2), (''3'', example_q4)]"
  by (simp add: QUESTION_INDEX_def fallback_catalog_def enumerate_eq_zip str_int_small upt_rec)

theorem answer_judged_by_exact_letter_witness:
  "feedback_of (sent (answer_handler fallback_catalog 7 ''answer|q1|A|manual|1'' initial_state))
     = Some (True, []) \<and>
   feedback_of (sent (answer_handler fallback_catalog 7 ''answer|q1|a|manual|1'' initial_state))
     = Some (False, []) \<and>
   wrong_of (state_after
     (answer_handler fallback_catalog 7 ''answer|q1|a|manual|1'' initial_state)) 7 = {''1''} \<and>
   feedback_of (sent (answer_handler fallback_catalog 7 ''answer|q2|B|manual|2'' initial_state))
     = Some (True, ''because'') \<and>
   feedback_of (sent (answer_handler fallback_catalog 7 ''answer|q2|A|manual|2'' initial_state))
     = Some (False, ''because'') \<and>
   feedback_of (sent (answer_handler fallback_catalog 7 ''answer|q4|B|manual|3'' initial_state))
     = Some (True, ''why'') \<and>
   map_option correct
     (USER_STATS (state_after
        (answer_handler fallback_catalog 7 ''answer|q4|B|manual|3'' initial_state)) 7) = Some 1"
proof -
  have a: "split_sep (CHR ''|'') ''answer|q1|A|manual|1'' =
             [''answer'', ''q1'', ''A'', ''manual'', ''1'']"
    "split_sep (CHR ''|'') ''answer|q1|a|manual|1'' =
             [''answer'', ''q1'', ''a'', ''manual'', ''1'']"
    "split_sep (CHR ''|'') ''answer|q2|B|manual|2'' =
             [''answer'', ''q2'', ''B'', ''manual'', ''2'']"
    "split_sep (CHR ''|'') ''answer|q2|A|manual|2'' =
             [''answer'', ''q2'', ''A'', ''manual'', ''2'']"
    "split_sep (CHR ''|'') ''answer|q4|B|manual|3'' =
             [''answer'', ''q4'', ''B'', ''manual'', ''3'']"
    by simp_all
  have b: "dict_get (QUESTION_INDEX fallback_catalog) ''1'' = Some example_q1"
    "dict_get (QUESTION_INDEX fallback_catalog) ''2'' = Some example_q2"
    "dict_get (QUESTION_INDEX fallback_catalog) ''3'' = Some example_q4"
    by (simp_all add: fallback_catalog_index dict_get_def)
  have o: "letter_in_options example_q1" "letter_in_options example_q2"
    "letter_in_options example_q4"
    by (simp_all add: letter_in_options_def example_letters)
       (simp_all add: example_q1_def example_q2_def example_q4_def dict_get_def)
  have f: "q_explanation_kg example_q1 = None" "q_explanation example_q1 = None"
    by (simp_all add: example_q1_def)
  note t1 = answer_judged_by_exact_letter [OF a(1) b(1), of 7 initial_state]
  note t2 = answer_judged_by_exact_letter [OF a(2) b(1), of 7 initial_state]
  note t3 = answer_judged_by_exact_letter [OF a(3) b(2), of 7 initial_state]
  note t4 = answer_judged_by_exact_letter [OF a(4) b(2), of 7 initial_state]
  note t5 = answer_judged_by_exact_letter [OF a(5) b(3), of 7 initial_state]
  from t1 t2 t3 t4 t5 o f show ?thesis
    by (simp add: example_letters wrong_of_def entry_after_def entry_before_def
          initial_state_def new_user_stats_def)
qed

section \<open>Topics\<close>

lemma dict_get_dict_set:
  "dict_get (dict_set k v d) k' = (if k' = k then Some v else dict_get d k')"
  by (induction d) (auto simp: dict_get_def)

lemma set_dict_set: "set (dict_set k v d) \<subseteq> insert (k, v) (set d)"
  by (induction d) auto

lemma dict_get_in_set: "dict_get d k = Some v \<Longrightarrow> (k, v) \<in> set d"
  by (simp add: dict_get_def map_of_SomeD)

lemma dict_get_key: "k \<in> set (map fst d) \<Longrightarrow> \<exists>v. dict_get d k = Some v"
  by (cases "dict_get d k") (auto simp: dict_get_def map_of_eq_None_iff)

lemma dict_get_no_key: "k \<notin> set (map fst d) \<Longrightarrow> dict_get d k = None"
  by (simp add: dict_get_def map_of_eq_None_iff)

lemma QUESTION_INDEX_member:
  assumes "(k, q) \<in> set (QUESTION_INDEX qs)"
  shows "dict_get (QUESTION_INDEX qs) k = Some q"
proof -
  from assms obtain i where i: "i < length qs" "k = str_int (int i + 1)" "q = qs ! i"
    by (auto simp: QUESTION_INDEX_def in_set_enumerate_eq)
  then show ?thesis
    by (simp add: QUESTION_INDEX_position position_def)
qed

lemma topic_index_add_ok:
  assumes "topic_entries_ok S idx" and "item \<in> S"
  shows "topic_entries_ok S (topic_index_add idx item)"
proof (cases "q_topic (snd item)")
  case None
  with assms show ?thesis by (simp add: topic_index_add_def)
next
  case (Some t)
  show ?thesis
  proof (cases "t = []")
    case True
    with Some assms show ?thesis by (simp add: topic_index_add_def)
  next
    case False
    define old where "old = (case dict_get idx t of None \<Rightarrow> [] | Some l \<Rightarrow> l)"
    note tp = Some
    have old: "\<forall>n \<in> set old. \<exists>q. (n, q) \<in> S \<and> q_topic q = Some t"
    proof (cases "dict_get idx t")
      case None
      then show ?thesis by (simp add: old_def)
    next
      case (Some l)
      then have "(t, l) \<in> set idx" by (rule dict_get_in_set)
      with assms(1) have "\<forall>n \<in> set l. \<exists>q. (n, q) \<in> S \<and> q_topic q = Some t"
        by (auto simp: topic_entries_ok_def)
      with Some show ?thesis by (simp add: old_def)
    qed
    have new: "\<exists>q. (fst item, q) \<in> S \<and> q_topic q = Some t"
      using assms(2) tp by (intro exI [of _ "snd item"]) simp
    have eq: "topic_index_add idx item = dict_set t (old @ [fst item]) idx"
      using tp False by (simp add: topic_index_add_def old_def)
    show ?thesis
      unfolding eq topic_entries_ok_def
    proof (intro ballI, clarify)
      fix a b assume "(a, b) \<in> set (dict_set t (old @ [fst item]) idx)"
      with set_dict_set have "(a, b) = (t, old @ [fst item]) \<or> (a, b) \<in> set idx" by fast
      then show "a \<noteq> [] \<and> b \<noteq> [] \<and> (\<forall>n \<in> set b. \<exists>q. (n, q) \<in> S \<and> q_topic q = Some a)"
      proof
        assume "(a, b) = (t, old @ [fst item])"
        with False old new show ?thesis by auto
      next
        assume "(a, b) \<in> set idx"
        with assms(1) show ?thesis by (auto simp: topic_entries_ok_def)
      qed
    qed
  qed
qed

lemma foldl_topic_index_ok:
  "topic_entries_ok S idx \<Longrightarrow> set items \<subseteq> S \<Longrightarrow>
     topic_entries_ok S (foldl topic_index_add idx items)"
  by (induction items arbitrary: idx) (simp_all add: topic_index_add_ok)

lemma TOPIC_INDEX_ok: "topic_entries_ok (set (QUESTION_INDEX qs)) (TOPIC_INDEX qs)"
  unfolding TOPIC_INDEX_def
  by (rule foldl_topic_index_ok) (simp_all add: topic_entries_ok_def)

lemma known_topics_nonempty: "t \<in> set (known_topics qs) \<Longrightarrow> t \<noteq> []"
  using TOPIC_INDEX_ok [of qs] by (auto simp: known_topics_def topic_entries_ok_def)

text \<open>The name map, built from any start: its keys and its entries.\<close>

lemma name_map_keys:
  "set (map fst (foldl (\<lambda>m t. dict_set (py_lower t) t m) m ts)) =
     set (map fst m) \<union> py_lower ` set ts"
proof (induction ts arbitrary: m)
  case Nil
  then show ?case by simp
next
  case (Cons t ts)
  show ?case
    by (simp add: Cons.IH keys_dict_set del: set_map)
qed

lemma name_map_entries:
  assumes "\<forall>(l, c) \<in> set m. l = py_lower c \<and> c \<in> T" and "set ts \<subseteq> T"
  shows "\<forall>(l, c) \<in> set (foldl (\<lambda>m t. dict_set (py_lower t) t m) m ts). l = py_lower c \<and> c \<in> T"
  using assms
proof (induction ts arbitrary: m)
  case Nil
  then show ?case by simp
next
  case (Cons t ts)
  have "\<forall>(l, c) \<in> set (dict_set (py_lower t) t m). l = py_lower c \<and> c \<in> T"
    using Cons.prems set_dict_set [of "py_lower t" t m] by auto
  moreover have "set ts \<subseteq> T" using Cons.prems by simp
  ultimately show ?case using Cons.IH by simp
qed

lemma TOPIC_NAME_MAP_keys:
  "set (map fst (TOPIC_NAME_MAP qs)) = py_lower ` set (known_topics qs)"
  by (simp add: TOPIC_NAME_MAP_def known_topics_def name_map_keys del: set_map)

lemma TOPIC_NAME_MAP_entries:
  "(l, c) \<in> set (TOPIC_NAME_MAP qs) \<Longrightarrow> l = py_lower c \<and> c \<in> set (known_topics qs)"
  using name_map_entries [of "[]" "set (known_topics qs)" "known_topics qs"]
  by (auto simp: TOPIC_NAME_MAP_def known_topics_def)

lemma startswith_self: "startswith s s"
  by (simp add: startswith_def)

lemma resolve_topic_exact:
  assumes "t \<in> set (known_topics qs)" and "py_lower t = query"
  shows "\<exists>c. resolve_topic qs query = Some c \<and> c \<in> set (known_topics qs) \<and> py_lower c = query"
proof -
  have "query \<in> set (map fst (TOPIC_NAME_MAP qs))"
    using assms by (auto simp: TOPIC_NAME_MAP_keys simp del: set_map)
  then obtain c where c: "dict_get (TOPIC_NAME_MAP qs) query = Some c"
    using dict_get_key by fast
  then have "(query, c) \<in> set (TOPIC_NAME_MAP qs)" by (rule dict_get_in_set)
  then have k: "query = py_lower c" "c \<in> set (known_topics qs)"
    using TOPIC_NAME_MAP_entries by blast+
  then have "c \<noteq> []" by (simp add: known_topics_nonempty)
  with c k show ?thesis by (simp add: resolve_topic_def)
qed

lemma resolve_topic_none:
  assumes "\<forall>t \<in> set (known_topics qs). \<not> startswith (py_lower t) query"
  shows "resolve_topic qs query = None"
proof -
  have "query \<notin> set (map fst (TOPIC_NAME_MAP qs))"
    using assms startswith_self by (auto simp: TOPIC_NAME_MAP_keys simp del: set_map)
  then have a: "dict_get (TOPIC_NAME_MAP qs) query = None"
    by (rule dict_get_no_key)
  have "\<not> startswith (fst item) query" if "item \<in> set (TOPIC_NAME_MAP qs)" for item
  proof -
    from that have "(fst item, snd item) \<in> set (TOPIC_NAME_MAP qs)" by simp
    then have "fst item = py_lower (snd item)" "snd item \<in> set (known_topics qs)"
      using TOPIC_NAME_MAP_entries by blast+
    with assms show ?thesis by auto
  qed
  then have b: "find (\<lambda>item. startswith (fst item) query) (TOPIC_NAME_MAP qs) = None"
    by (force simp: find_None_iff)
  from a b show ?thesis by (simp add: resolve_topic_def)
qed

lemma topic_question_sent:
  assumes "resolve_topic qs query = Some c" and "c \<in> set (known_topics qs)"
  shows "\<exists>qnum q. q_topic q = Some c \<and> dict_get (QUESTION_INDEX qs) qnum = Some q \<and>
           (case dict_get (TOPIC_INDEX qs) c of
              None \<Rightarrow> throw s [] KeyError
            | Some qnums \<Rightarrow>
                (case random_choice qnums r of
                   Inl e \<Rightarrow> throw s [] e
                 | Inr qnum \<Rightarrow>
                     (case dict_get (QUESTION_INDEX qs) qnum of
                        None \<Rightarrow> throw s [] KeyError
                      | Some q \<Rightarrow>
                          finish s (send_question_universal u q (Some qnum) ''manual''))))
           = finish s [SendQuestion u q (Some qnum) ''manual'']"
proof -
  from assms(2) obtain qnums where l: "dict_get (TOPIC_INDEX qs) c = Some qnums"
    using dict_get_key [of c "TOPIC_INDEX qs"] by (auto simp: known_topics_def simp del: set_map)
  then have "(c, qnums) \<in> set (TOPIC_INDEX qs)" by (rule dict_get_in_set)
  with TOPIC_INDEX_ok [of qs]
  have ne: "qnums \<noteq> []"
    and each: "\<forall>n \<in> set qnums. \<exists>q. (n, q) \<in> set (QUESTION_INDEX qs) \<and> q_topic q = Some c"
    by (auto simp: topic_entries_ok_def)
  define qnum where "qnum = qnums ! (r mod length qnums)"
  have "qnum \<in> set qnums" using ne by (simp add: qnum_def)
  with each obtain q where q: "(qnum, q) \<in> set (QUESTION_INDEX qs)" "q_topic q = Some c"
    by blast
  then have g: "dict_get (QUESTION_INDEX qs) qnum = Some q" by (simp add: QUESTION_INDEX_member)
  have "random_choice qnums r = Inr qnum" using ne by (simp add: random_choice_def qnum_def)
  with l g q show ?thesis
    by (intro exI [of _ qnum] exI [of _ q]) (simp add: send_question_universal_def)
qed

text \<open>
  C7. Take a \<open>/topic\<close> message with an argument; the query is the argument stripped and
  lower-cased, the known topics are the keys of the topic index. (1) If some known topic
  has the query as its lower-cased name, the lookup resolves to a known topic with that
  lower-cased name, that is to an exact match, whatever other topics the query is a
  prefix of, and a question of that topic is sent in manual mode. (2) If the query is a
  prefix of the lower-cased name of no known topic (an exact match is a prefix match),
  the handler replies with the topic-not-found notice and changes nothing.
\<close>

theorem topic_exact_match_first:
  assumes "split_ws1 txt = [cmd, arg]"
  shows "((\<exists>t \<in> set (known_topics qs). py_lower t = py_lower (py_strip arg)) \<longrightarrow>
            (\<exists>c qnum q. c \<in> set (known_topics qs) \<and>
               py_lower c = py_lower (py_strip arg) \<and>
               resolve_topic qs (py_lower (py_strip arg)) = Some c \<and>
               q_topic q = Some c \<and>
               topic_handler qs u txt r s = finish s [SendQuestion u q (Some qnum) ''manual''])) \<and>
         ((\<forall>t \<in> set (known_topics qs). \<not> startswith (py_lower t) (py_lower (py_strip arg))) \<longrightarrow>
            topic_handler qs u txt r s = finish s [SendText u TopicNotFound])"
proof (intro conjI impI)
  assume "\<exists>t \<in> set (known_topics qs). py_lower t = py_lower (py_strip arg)"
  then obtain c where c: "resolve_topic qs (py_lower (py_strip arg)) = Some c"
    "c \<in> set (known_topics qs)" "py_lower c = py_lower (py_strip arg)"
    using resolve_topic_exact by blast
  from topic_question_sent [OF c(1,2), where s = s and r = r and u = u] obtain qnum q where
    "q_topic q = Some c"
    "topic_handler qs u txt r s = finish s [SendQuestion u q (Some qnum) ''manual'']"
    by (auto simp: topic_handler_def assms c(1))
  with c show "\<exists>c qnum q. c \<in> set (known_topics qs) \<and>
               py_lower c = py_lower (py_strip arg) \<and>
               resolve_topic qs (py_lower (py_strip arg)) = Some c \<and>
               q_topic q = Some c \<and>
               topic_handler qs u txt r s = finish s [SendQuestion u q (Some qnum) ''manual'']"
    by blast
next
  assume "\<forall>t \<in> set (known_topics qs). \<not> startswith (py_lower t) (py_lower (py_strip arg))"
  then have "resolve_topic qs (py_lower (py_strip arg)) = None"
    by (rule resolve_topic_none)
  then show "topic_handler qs u txt r s = finish s [SendText u TopicNotFound]"
    by (simp add: topic_handler_def assms)
qed

text \<open>
  A catalog whose first topic, \<open>algebra 2\<close>, has the query \<open>algebra\<close> as a prefix and
  whose second topic, \<open>Algebra\<close>, matches it exactly.
\<close>

lemma topics_catalog_index:
  "QUESTION_INDEX topics_catalog = [(''1'', example_q2), (''2'', example_q1)]"
  by (simp add: QUESTION_INDEX_def topics_catalog_def enumerate_eq_zip str_int_small upt_rec)

lemma topics_catalog_topics:
  "TOPIC_INDEX topics_catalog = [(''algebra 2'', [''1'']), (''Algebra'', [''2''])]"
  by (simp add: TOPIC_INDEX_def topics_catalog_index topic_index_add_def example_q1_def
        example_q2_def dict_get_def)

lemma lower_examples:
  "py_lower ''ALGEBRA'' = ''algebra''" "py_lower ''Algebra'' = ''algebra''"
  "py_lower ''algebra 2'' = ''algebra 2''" "py_lower ''zz'' = ''zz''"
  by code_simp+

lemma topics_catalog_names:
  "TOPIC_NAME_MAP topics_catalog = [(''algebra 2'', ''algebra 2''), (''algebra'', ''Algebra'')]"
  by (simp add: TOPIC_NAME_MAP_def topics_catalog_topics lower_examples)

theorem topic_exact_match_first_witness:
  "startswith (py_lower ''algebra 2'') ''algebra'' \<and>
   resolve_topic topics_catalog ''algebra'' = Some ''Algebra'' \<and>
   topic_handler topics_catalog 7 ''/topic ALGEBRA '' 0 initial_state =
     finish initial_state [SendQuestion 7 example_q1 (Some ''2'') ''manual''] \<and>
   topic_handler topics_catalog 7 ''/topic zz'' 0 initial_state =
     finish initial_state [SendText 7 TopicNotFound]"
proof -
  have a: "split_ws1 ''/topic ALGEBRA '' = [''/topic'', ''ALGEBRA '']"
    by (simp add: split_ws1_def py_isspace_def)
  have b: "split_ws1 ''/topic zz'' = [''/topic'', ''zz'']"
    by (simp add: split_ws1_def py_isspace_def)
  have c: "py_strip ''ALGEBRA '' = ''ALGEBRA''" "py_strip ''zz'' = ''zz''"
    by (simp_all add: py_strip_def py_isspace_def)
  have k: "known_topics topics_catalog = [''algebra 2'', ''Algebra'']"
    by (simp add: known_topics_def topics_catalog_topics)
  have h1: "\<exists>t \<in> set (known_topics topics_catalog). py_lower t = py_lower (py_strip ''ALGEBRA '')"
    by (simp add: k c lower_examples)
  have h2: "\<forall>t \<in> set (known_topics topics_catalog).
              \<not> startswith (py_lower t) (py_lower (py_strip ''zz''))"
    by (simp add: k c lower_examples startswith_def)
  have r: "resolve_topic topics_catalog ''algebra'' = Some ''Algebra''"
    by (simp add: resolve_topic_def topics_catalog_names dict_get_def)
  have p: "startswith (py_lower ''algebra 2'') ''algebra''"
    by (simp add: lower_examples startswith_def)
  have e: "topic_handler topics_catalog 7 ''/topic ALGEBRA '' 0 initial_state =
     finish initial_state [SendQuestion 7 example_q1 (Some ''2'') ''manual'']"
    by (simp add: topic_handler_def a c lower_examples r topics_catalog_topics
          topics_catalog_index dict_get_def random_choice_def send_question_universal_def)
  from topic_exact_match_first
         [OF a, where qs = topics_catalog and u = 7 and r = 0 and s = initial_state]
       topic_exact_match_first
         [OF b, where qs = topics_catalog and u = 7 and r = 0 and s = initial_state]
       h1 h2 r p e
  show ?thesis by simp
qed

section \<open>Analytics reads\<close>

lemma get_conn_unavailable: "store_unavailable p \<Longrightarrow> get_conn p body = body None"
  by (simp add: store_unavailable_def get_conn_def split: pool.splits sum.splits)

lemma get_conn_released:
  "get_conn (Pool (Inr conn) None) body =
     (case body (Some conn) of Inl e \<Rightarrow> Inl RuntimeError | Inr v \<Rightarrow> Inr v)"
  by (simp add: get_conn_def split: sum.splits)

lemma get_conn_release_fails: "get_conn (Pool (Inr conn) (Some e)) body = Inl RuntimeError"
  by (simp add: get_conn_def split: sum.splits)

lemma try_except_total: "\<not> isl (try_except body dflt)"
  by (simp add: try_except_def split: sum.splits)

lemma try_except_returns: "\<exists>v. try_except body dflt = Inr v"
  by (cases body) (simp_all add: try_except_def)

lemma try_except_error: "isl body \<Longrightarrow> try_except body dflt = Inr dflt"
  by (cases body) (simp_all add: try_except_def)

lemmas reader_defs =
  get_dau_today_def get_attempts_today_def get_attempts_total_def get_accuracy_def
  get_attempts_per_day_def get_top_users_last_7_days_def get_retention_d1_def

text \<open>Without a pool, or when no connection can be acquired, every reader returns its zero.\<close>

lemma reads_without_store:
  assumes "store_unavailable p"
  shows "get_dau_today p now tz = Inr 0" and "get_attempts_today p now tz = Inr 0"
    and "get_attempts_total p = Inr 0" and "get_accuracy p = Inr 0"
    and "get_attempts_per_day p now days tz = Inr []"
    and "get_top_users_last_7_days p now limit tz = Inr []"
    and "get_retention_d1 p = Inr 0"
  by (simp_all add: get_conn_unavailable [OF assms] reader_defs)

text \<open>With a connection that is given back without an exception, a query error gives zero.\<close>

lemma reads_on_query_error:
  assumes "p = Pool (Inr conn) None"
  shows "isl (fetchval conn CountEventUsersSince [start_of_day_utc now tz]) \<Longrightarrow>
           get_dau_today p now tz = Inr 0"
    and "isl (fetchval conn CountAttemptsSince [start_of_day_utc now tz]) \<Longrightarrow>
           get_attempts_today p now tz = Inr 0"
    and "isl (fetchval conn CountAttempts []) \<Longrightarrow> get_attempts_total p = Inr 0"
    and "isl (fetchrow conn AccuracyTotals []) \<Longrightarrow> get_accuracy p = Inr 0"
    and "isl (fetch conn AttemptsPerDaySince [start_date_utc now days tz]) \<Longrightarrow>
           get_attempts_per_day p now days tz = Inr []"
    and "isl (fetch conn TopUsersSince [start_date_utc now 7 tz, limit]) \<Longrightarrow>
           get_top_users_last_7_days p now limit tz = Inr []"
    and "isl (fetchrow conn RetentionTotals []) \<Longrightarrow> get_retention_d1 p = Inr 0"
  using assms
  by (auto simp: get_conn_released reader_defs try_except_def isl_def)

text \<open>In both situations no reader raises.\<close>

lemma reads_return:
  assumes "store_unavailable p \<or> p = Pool (Inr conn) None"
  shows "\<not> isl (get_dau_today p now tz)" and "\<not> isl (get_attempts_today p now tz)"
    and "\<not> isl (get_attempts_total p)" and "\<not> isl (get_accuracy p)"
    and "\<not> isl (get_attempts_per_day p now days tz)"
    and "\<not> isl (get_top_users_last_7_days p now limit tz)"
    and "\<not> isl (get_retention_d1 p)"
  using assms
  by (auto simp: get_conn_unavailable get_conn_released reader_defs try_except_def
        split: sum.splits)

text \<open>When giving the connection back raises, every reader ends in \<open>RuntimeError\<close>.\<close>

lemma reads_raise_on_release:
  assumes "p = Pool (Inr conn) (Some e)"
  shows "get_dau_today p now tz = Inl RuntimeError"
    and "get_attempts_today p now tz = Inl RuntimeError"
    and "get_attempts_total p = Inl RuntimeError" and "get_accuracy p = Inl RuntimeError"
    and "get_attempts_per_day p now days tz = Inl RuntimeError"
    and "get_top_users_last_7_days p now limit tz = Inl RuntimeError"
    and "get_retention_d1 p = Inl RuntimeError"
  by (simp_all add: assms get_conn_release_fails reader_defs)

lemma reads_examples:
  "get_dau_today NoPool 0 6 = Inr 0"
  "get_accuracy (Pool (Inl StoreError) None) = Inr 0"
  "get_attempts_total (Pool (Inr failing_connection) None) = Inr 0"
  "get_attempts_total (Pool (Inr counting_connection) None) = Inr 5"
  "get_accuracy (Pool (Inr counting_connection) None) = Inr 75"
  by (simp_all add: reader_defs get_conn_def try_except_def failing_connection_def
        counting_connection_def count_or_0_def percentage_def row_int_def row_get_def
        dict_get_def)

text \<open>
  C8. The readers on a store that goes away while a query runs: the connection was
  acquired, the query raises and is turned into the zero value inside the reader, and
  then giving the connection back raises as well. Each of the seven read queries ends
  in \<open>RuntimeError\<close>; none returns \<open>0\<close>, \<open>0.0\<close> or the empty list.
\<close>

theorem analytics_reads_raise_on_lost_store:
  "get_dau_today lost_store 0 6 = Inl RuntimeError \<and>
   get_attempts_today lost_store 0 6 = Inl RuntimeError \<and>
   get_attempts_total lost_store = Inl RuntimeError \<and>
   get_accuracy lost_store = Inl RuntimeError \<and>
   get_attempts_per_day lost_store 0 14 6 = Inl RuntimeError \<and>
   get_top_users_last_7_days lost_store 0 10 6 = Inl RuntimeError \<and>
   get_retention_d1 lost_store = Inl RuntimeError"
  by (simp add: lost_store_def reader_defs get_conn_def try_except_def failing_connection_def)

section \<open>Buttons and a session\<close>

lemma answer_callback_data_split:
  assumes "CHR ''|'' \<notin> set (q_id q)" and "CHR ''|'' \<notin> set letter"
    and "CHR ''|'' \<notin> set nav_mode" and "CHR ''|'' \<notin> set qnum"
  shows "split_sep (CHR ''|'') (answer_callback_data q letter nav_mode (Some qnum)) =
           [''answer'', q_id q, letter, nav_mode, qnum]"
  using assms
  by (simp add: answer_callback_data_def fmt_opt_def split_sep_prefix split_sep_absent)

lemma topic_index_add_keys:
  "set (map fst (topic_index_add idx item)) =
     set (map fst idx) \<union> {t. t \<noteq> [] \<and> q_topic (snd item) = Some t}"
  by (auto simp: topic_index_add_def keys_dict_set simp del: set_map split: option.splits)

lemma foldl_topic_index_keys:
  "set (map fst (foldl topic_index_add idx items)) =
     set (map fst idx) \<union> {t. t \<noteq> [] \<and> (\<exists>item \<in> set items. q_topic (snd item) = Some t)}"
proof (induction items arbitrary: idx)
  case Nil
  then show ?case by simp
next
  case (Cons item items)
  show ?case
    by (simp add: Cons.IH topic_index_add_keys del: set_map) blast
qed

lemma QUESTION_INDEX_questions: "snd ` set (QUESTION_INDEX qs) = set qs"
proof -
  have "map snd (QUESTION_INDEX qs) = map snd (enumerate 0 qs)"
    by (simp add: QUESTION_INDEX_def case_prod_unfold comp_def)
  then have "map snd (QUESTION_INDEX qs) = qs" by simp
  then have "set (map snd (QUESTION_INDEX qs)) = set qs" by simp
  then show ?thesis by simp
qed

lemma known_topics_set:
  "set (known_topics qs) = {t. t \<noteq> [] \<and> (\<exists>q \<in> set qs. q_topic q = Some t)}"
proof -
  have "(\<exists>item \<in> set (QUESTION_INDEX qs). q_topic (snd item) = Some t) \<longleftrightarrow>
        (\<exists>q \<in> set qs. q_topic q = Some t)" for t
    using QUESTION_INDEX_questions [of qs] by (metis (no_types, lifting) image_iff)
  then show ?thesis
    by (simp add: known_topics_def TOPIC_INDEX_def foldl_topic_index_keys del: set_map)
qed

text \<open>
  A session on three easy questions: the level is picked, the first question is answered
  right and the second wrong. Each answer brings the next question; at the end the
  cursor is 2, two answers are counted, one of them right, and position 2 is the one
  wrong position.
\<close>

lemma easy_session_sent:
  "snd (replay easy_catalog easy_session initial_state) =
     [SendText 7 (LevelChosen ''easy''),
      SendQuestion 7 (easy_q ''e1'') (Some ''1'') ''sequential'', CallbackAnswer,
      SendText 7 (AnswerRight []),
      SendQuestion 7 (easy_q ''e2'') (Some ''2'') ''sequential'', CallbackAnswer,
      SendText 7 (AnswerWrong ''A'' ''yes'' []),
      SendQuestion 7 (easy_q ''e3'') (Some ''3'') ''sequential'', CallbackAnswer]"
  by code_simp

lemma easy_session_state:
  "USER_PROGRESS (fst (replay easy_catalog easy_session initial_state)) 7 =
     Some \<lparr>difficulty = ''easy'', index = 2\<rparr> \<and>
   USER_STATS (fst (replay easy_catalog easy_session initial_state)) 7 =
     Some \<lparr>total = 2, correct = 1, by_diff = [(''easy'', \<lparr>d_total = 2, d_correct = 1\<rparr>)],
           wrong_qnums = {''2''}\<rparr>"
  by code_simp

end
